theory Spec2Isabelle
  imports Main "HOL-Library.Sublist"
begin

section \<open>Journalising receipt emails: a model of \<open>robot_framework/process.py\<close>\<close>

text \<open>
  The robot reads receipt emails from a shared mailbox, takes a CPR number out of each
  email's text, creates a case in KMD Nova, uploads the email as a document of that case
  and moves the email to an archive folder, keeping one queue element per email in the
  orchestrator.

  A Python \<open>str\<close> is modelled by the \<^typ>\<open>string\<close> of its UTF-8 bytes, the encoding of
  the source file itself. Equality of two \<open>str\<close> is equality of their encodings. The
  pattern of the robot has ASCII literals only, and in UTF-8 no byte of a character beyond
  ASCII is an ASCII byte, so searching the bytes finds the matches of the search over the
  characters, with the encoded captures.
\<close>

subsection \<open>Exceptions\<close>

text \<open>
  \<open>IndexError\<close> is what \<open>[][0]\<close> raises, \<open>KeyError k\<close> what a \<open>dict\<close> raises at a
  missing key \<open>k\<close>, and \<open>Raised m\<close> stands for any other \<open>Exception\<close>, known by its
  text \<open>m\<close> alone. \<open>str_exn\<close> is Python's \<open>str(exc)\<close>.
\<close>

datatype exn = IndexError | KeyError string | Raised string

fun str_exn :: "exn \<Rightarrow> string" where
  "str_exn IndexError = ''list index out of range''"
| "str_exn (KeyError k) = [CHR 0x27] @ k @ [CHR 0x27]"
| "str_exn (Raised m) = m"

subsection \<open>Emails\<close>

text \<open>
  The fields of the library's \<open>Email\<close> that the robot reads. \<open>get_text\<close> is the text
  that the method \<open>email.get_text()\<close> returns.
\<close>

record email =
  sender :: string
  subject :: string
  received_time :: string
  get_text :: string

subsection \<open>The pattern search of \<open>get_cpr_from_email\<close>\<close>

text \<open>
  \<open>re.findall(r"CPR-nummer(.+?)Adresse", text)\<close>: Python's backtracking matcher, written
  out for this pattern. \<open>match_literal p s\<close> matches the literal \<open>p\<close> at the start of \<open>s\<close>
  and returns what follows it.
\<close>

definition newline :: char where
  "newline = CHR 0x0A"

fun match_literal :: "string \<Rightarrow> string \<Rightarrow> string option" where
  "match_literal [] s = Some s"
| "match_literal (p # ps) [] = None"
| "match_literal (p # ps) (c # cs) = (if p = c then match_literal ps cs else None)"

text \<open>
  \<open>(.+?)Adresse\<close>: the lazy group takes one character, which \<open>.\<close> must match (any
  character but the line feed), then tries the literal; when the literal fails the group
  takes one character more. The result is the group and the text after the match.
\<close>

fun match_lazy :: "string \<Rightarrow> (string \<times> string) option" where
  "match_lazy [] = None"
| "match_lazy (c # cs) =
     (if c = newline then None
      else (case match_literal ''Adresse'' cs of
              Some rest \<Rightarrow> Some ([c], rest)
            | None \<Rightarrow> map_option (\<lambda>(g, rest). (c # g, rest)) (match_lazy cs)))"

definition match_at :: "string \<Rightarrow> (string \<times> string) option" where
  "match_at s =
     (case match_literal ''CPR-nummer'' s of
        None \<Rightarrow> None
      | Some r \<Rightarrow> match_lazy r)"

lemma match_literal_Some: "match_literal p s = Some r \<longleftrightarrow> s = p @ r"
  by (induction p s rule: match_literal.induct) auto

lemma match_lazy_sound:
  "match_lazy s = Some (g, r) \<Longrightarrow> s = g @ ''Adresse'' @ r \<and> g \<noteq> [] \<and> newline \<notin> set g"
proof (induction s arbitrary: g r)
  case Nil
  then show ?case by simp
next
  case (Cons c cs)
  from Cons.prems have c: "c \<noteq> newline"
    by (auto split: if_splits)
  show ?case
  proof (cases "match_literal ''Adresse'' cs")
    case (Some rest)
    with Cons.prems c have "g = [c]" and "r = rest" by auto
    moreover from Some have "cs = ''Adresse'' @ rest"
      by (simp only: match_literal_Some)
    ultimately show ?thesis using c by simp
  next
    case None
    with Cons.prems c obtain g' where g': "match_lazy cs = Some (g', r)" and g: "g = c # g'"
      by auto
    from Cons.IH [OF g'] g c show ?thesis by simp
  qed
qed

lemma match_at_sound:
  "match_at s = Some (g, r) \<Longrightarrow>
     s = ''CPR-nummer'' @ g @ ''Adresse'' @ r \<and> g \<noteq> [] \<and> newline \<notin> set g"
proof -
  assume m: "match_at s = Some (g, r)"
  then obtain t where t: "match_literal ''CPR-nummer'' s = Some t" and l: "match_lazy t = Some (g, r)"
    by (auto simp: match_at_def split: option.splits)
  from t have "s = ''CPR-nummer'' @ t" by (simp only: match_literal_Some)
  with match_lazy_sound [OF l] show ?thesis by simp
qed

lemma match_at_shorter: "match_at s = Some (g, r) \<Longrightarrow> length r < length s"
  by (drule match_at_sound) simp

text \<open>
  \<open>findall\<close> scans from the left: where the pattern matches it keeps the group and goes on
  after the match (a match is never empty), elsewhere it moves one character on.
\<close>

function re_findall :: "string \<Rightarrow> string list" where
  "re_findall [] = []"
| "re_findall (c # cs) =
     (case match_at (c # cs) of
        Some (g, rest) \<Rightarrow> g # re_findall rest
      | None \<Rightarrow> re_findall cs)"
  by pat_completeness auto
termination
  by (relation "measure length") (auto dest: match_at_shorter)

text \<open>\<open>re.findall(...)[0]\<close>: the first group, or \<open>IndexError\<close> on the empty list.\<close>

definition get_cpr_from_email :: "email \<Rightarrow> exn + string" where
  "get_cpr_from_email email =
     (let text = get_text email in
      case re_findall text of
        [] \<Rightarrow> Inl IndexError
      | cpr # _ \<Rightarrow> Inr cpr)"

subsection \<open>Nova objects\<close>

text \<open>
  The library's dataclasses, with the fields the robot sets. A field name that two classes
  share carries the class as a prefix. A \<open>datetime\<close> is kept by its calendar fields.
\<close>

record datetime =
  year :: nat
  month :: nat
  day :: nat
  hour :: nat
  minute :: nat
  second :: nat

record CaseParty =
  role :: string
  identification_type :: string
  identification :: string
  party_name :: string
  party_uuid :: "string option"

record Department =
  department_id :: int
  department_name :: string
  user_key :: string

record Caseworker =
  caseworker_uuid :: string
  caseworker_name :: string
  ident :: string

record NovaCase =
  case_uuid :: string
  case_title :: string
  case_date :: datetime
  progress_state :: string
  case_parties :: "CaseParty list"
  kle_number :: string
  proceeding_facet :: string
  case_sensitivity :: string
  responsible_department :: Department
  security_unit :: Department
  caseworker :: Caseworker

record Document =
  document_uuid :: string
  document_title :: string
  document_sensitivity :: string
  document_type :: string
  document_date :: string
  approved :: bool
  description :: string

subsection \<open>The world outside the robot\<close>

text \<open>
  The mail gateway, the case backend and the orchestrator are libraries and services
  outside the repository. The model keeps the world as the list of the effects that have
  taken place in it, oldest first: one event per call that changed something. A call that
  raises changes nothing.

  \<open>QueueStatus\<close> is the orchestrator's enumeration; a queue element is \<open>NEW\<close> when created.
  A queue element is known by its number in the order of creation.
\<close>

datatype QueueStatus = NEW | IN_PROGRESS | DONE | FAILED | ABANDONED

datatype event =
    Log_trace string
  | Log_info string
  | Create_queue_element string string
  | Set_queue_element_status nat QueueStatus "string option"
  | Add_case NovaCase
  | Upload_document string string string
  | Attach_document_to_case string Document
  | Move_email email string

type_synonym world = "event list"

text \<open>
  What the world answers. Every call of the mail gateway and of the case backend either
  raises or succeeds, and its answer may depend on all that happened before. The clock
  (\<open>datetime.now()\<close>), the generator of identifiers (\<open>str(uuid.uuid4())\<close>) and the parser
  \<open>datetime.fromisoformat\<close> are answers of the world as well. \<open>authorize\<close> stands for
  lines 29 to 33 of \<open>process\<close>, which read two credentials and open the two sessions:
  \<open>None\<close> when they succeed. The sessions are only handed on to the library calls and are
  part of the world here. \<open>QUEUE_NAME\<close> is the constant of \<open>robot_framework/config.py\<close>.
\<close>

record env =
  QUEUE_NAME :: string
  authorize :: "world \<Rightarrow> exn option"
  get_emails_from_folder :: "world \<Rightarrow> string \<Rightarrow> string \<Rightarrow> exn + email list"
  fromisoformat :: "string \<Rightarrow> exn + datetime"
  now :: "world \<Rightarrow> datetime"
  uuid4 :: "world \<Rightarrow> string"
  get_address_by_cpr :: "world \<Rightarrow> string \<Rightarrow> exn + (string \<rightharpoonup> string)"
  add_case :: "world \<Rightarrow> NovaCase \<Rightarrow> exn option"
  get_email_as_mime :: "world \<Rightarrow> email \<Rightarrow> exn + string"
  upload_document :: "world \<Rightarrow> string \<Rightarrow> string \<Rightarrow> exn + string"
  attach_document_to_case :: "world \<Rightarrow> string \<Rightarrow> Document \<Rightarrow> exn option"
  move_email :: "world \<Rightarrow> email \<Rightarrow> string \<Rightarrow> exn option"

subsection \<open>Views of the world\<close>

fun created_queue_elements :: "world \<Rightarrow> (string \<times> string) list" where
  "created_queue_elements [] = []"
| "created_queue_elements (Create_queue_element q r # w) = (q, r) # created_queue_elements w"
| "created_queue_elements (_ # w) = created_queue_elements w"

fun status_updates :: "nat \<Rightarrow> world \<Rightarrow> (QueueStatus \<times> string option) list" where
  "status_updates i [] = []"
| "status_updates i (Set_queue_element_status j s m # w) =
     (if i = j then (s, m) # status_updates i w else status_updates i w)"
| "status_updates i (_ # w) = status_updates i w"

fun created_cases :: "world \<Rightarrow> NovaCase list" where
  "created_cases [] = []"
| "created_cases (Add_case c # w) = c # created_cases w"
| "created_cases (_ # w) = created_cases w"

fun uploaded_documents :: "world \<Rightarrow> (string \<times> string \<times> string) list" where
  "uploaded_documents [] = []"
| "uploaded_documents (Upload_document mime filename u # w) = (mime, filename, u) # uploaded_documents w"
| "uploaded_documents (_ # w) = uploaded_documents w"

fun attached_documents :: "world \<Rightarrow> (string \<times> Document) list" where
  "attached_documents [] = []"
| "attached_documents (Attach_document_to_case u d # w) = (u, d) # attached_documents w"
| "attached_documents (_ # w) = attached_documents w"

fun moved_emails :: "world \<Rightarrow> (email \<times> string) list" where
  "moved_emails [] = []"
| "moved_emails (Move_email e folder # w) = (e, folder) # moved_emails w"
| "moved_emails (_ # w) = moved_emails w"

text \<open>The status of queue element \<open>i\<close>: the last one set, \<open>NEW\<close> when none was.\<close>

definition queue_status :: "world \<Rightarrow> nat \<Rightarrow> QueueStatus" where
  "queue_status w i = (case status_updates i w of [] \<Rightarrow> NEW | us \<Rightarrow> fst (last us))"

definition queue_statuses :: "world \<Rightarrow> QueueStatus list" where
  "queue_statuses w = map (queue_status w) [0 ..< length (created_queue_elements w)]"

text \<open>
  The steps of the handler proper: the events between the creation of a queue element
  and the setting of its status.
\<close>

fun steps :: "world \<Rightarrow> world" where
  "steps [] = []"
| "steps (Log_trace _ # w) = steps w"
| "steps (Log_info _ # w) = steps w"
| "steps (Create_queue_element _ _ # w) = steps w"
| "steps (Set_queue_element_status _ _ _ # w) = steps w"
| "steps (e # w) = e # steps w"

subsection \<open>The orchestrator's calls\<close>

text \<open>
  \<open>create_queue_element\<close> returns the new element's number; \<open>set_queue_element_status\<close>
  records a status and an optional message. The source wraps neither in a handler, and
  the model takes both to succeed.
\<close>

definition create_queue_element :: "string \<Rightarrow> string \<Rightarrow> world \<Rightarrow> nat \<times> world" where
  "create_queue_element queue_name reference w =
     (length (created_queue_elements w), w @ [Create_queue_element queue_name reference])"

definition set_queue_element_status :: "nat \<Rightarrow> QueueStatus \<Rightarrow> string option \<Rightarrow> world \<Rightarrow> world" where
  "set_queue_element_status i status message w = w @ [Set_queue_element_status i status message]"

subsection \<open>String constants of the source\<close>

text \<open>The Danish letters in UTF-8.\<close>

definition ae :: string where "ae = [CHR 0xC3, CHR 0xA6]"
definition oe :: string where "oe = [CHR 0xC3, CHR 0xB8]"
definition aa :: string where "aa = [CHR 0xC3, CHR 0xA5]"
definition AA :: string where "AA = [CHR 0xC3, CHR 0x85]"

definition mailbox :: string where
  "mailbox = ''kontrolteamet@mkb.aarhus.dk''"

definition source_folder :: string where
  "source_folder = ''Indbakke/Enlig fors'' @ oe @ ''rgerprojekt/Kvitteringer til journalisering''"

definition archive_folder :: string where
  "archive_folder = ''Indbakke/Enlig fors'' @ oe @ ''rgerprojekt/Journaliserede kvitteringer''"

definition receipt_sender :: string where
  "receipt_sender = ''noreply@aarhus.dk''"

definition receipt_subject :: string where
  "receipt_subject = ''Erkl'' @ ae @ ''ring - '' @ oe @ ''konomisk fripladstilskud''"

text \<open>Python's \<open>str\<close> of a natural number, as an f-string formats a year or a count.\<close>

fun string_of_nat :: "nat \<Rightarrow> string" where
  "string_of_nat n =
     (if n < 10 then [''0123456789'' ! n]
      else string_of_nat (n div 10) @ [''0123456789'' ! (n mod 10)])"

declare string_of_nat.simps [simp del]

subsection \<open>\<open>get_emails\<close>\<close>

definition get_emails :: "env \<Rightarrow> world \<Rightarrow> exn + email list" where
  "get_emails E w =
     (case get_emails_from_folder E w mailbox source_folder of
        Inl exc \<Rightarrow> Inl exc
      | Inr mails \<Rightarrow>
          Inr [mail \<leftarrow> mails. sender mail = receipt_sender \<and> subject mail = receipt_subject])"

subsection \<open>\<open>create_case\<close>\<close>

definition create_case :: "env \<Rightarrow> string \<Rightarrow> datetime \<Rightarrow> world \<Rightarrow> (exn + NovaCase) \<times> world" where
  "create_case E cpr date w =
     (case get_address_by_cpr E w cpr of
        Inl exc \<Rightarrow> (Inl exc, w)
      | Inr address \<Rightarrow>
          (case address ''name'' of
             None \<Rightarrow> (Inl (KeyError ''name''), w)
           | Some name \<Rightarrow>
               (let case_party = \<lparr>role = ''Prim'' @ ae @ ''r'',
                                  identification_type = ''CprNummer'',
                                  identification = cpr,
                                  party_name = name,
                                  party_uuid = None\<rparr>;
                    title = ''Projekt enlig fors'' @ oe @ ''rger '' @ string_of_nat (year (now E w));
                    department = \<lparr>department_id = 70363,
                                  department_name = ''Kontrolteamet'',
                                  user_key = ''4BKONTROL''\<rparr>;
                    worker = \<lparr>caseworker_uuid = ''3eb31cbb-d6dc-4b01-9eec-0b415f5b89cb'',
                              caseworker_name = ''Rpabruger Rpa15 - M'' @ AA @ '' IKKE SLETTES RITM0055928'',
                              ident = ''AZRPA15''\<rparr>;
                    c = \<lparr>case_uuid = uuid4 E w,
                         case_title = title,
                         case_date = date,
                         progress_state = ''Afsluttet'',
                         case_parties = [case_party],
                         kle_number = ''32.45.04'',
                         proceeding_facet = ''G01'',
                         case_sensitivity = ''Fortrolige'',
                         responsible_department = department,
                         security_unit = department,
                         caseworker = worker\<rparr>
                in (case add_case E w c of
                      Some exc \<Rightarrow> (Inl exc, w)
                    | None \<Rightarrow> (Inr c, w @ [Add_case c])))))"

subsection \<open>\<open>attach_email_to_case\<close>\<close>

definition attach_email_to_case :: "env \<Rightarrow> email \<Rightarrow> NovaCase \<Rightarrow> world \<Rightarrow> (exn + unit) \<times> world" where
  "attach_email_to_case E email c w =
     (case get_email_as_mime E w email of
        Inl exc \<Rightarrow> (Inl exc, w)
      | Inr mime \<Rightarrow>
          (case upload_document E w mime ''Email kvittering.eml'' of
             Inl exc \<Rightarrow> (Inl exc, w)
           | Inr doc_uuid \<Rightarrow>
               (let w1 = w @ [Upload_document mime ''Email kvittering.eml'' doc_uuid];
                    doc = \<lparr>document_uuid = doc_uuid,
                           document_title = ''Email kvittering'',
                           document_sensitivity = ''Fortrolige'',
                           document_type = ''Indg'' @ aa @ ''ende'',
                           document_date = received_time email,
                           approved = True,
                           description = ''Automatisk journaliseret af robot.''\<rparr>
                in (case attach_document_to_case E w1 (case_uuid c) doc of
                      Some exc \<Rightarrow> (Inl exc, w1)
                    | None \<Rightarrow> (Inr (), w1 @ [Attach_document_to_case (case_uuid c) doc])))))"

subsection \<open>\<open>handle_email\<close>\<close>

text \<open>The body of the \<open>try\<close>: the three steps, each run when the one before returned.\<close>

definition try_block :: "env \<Rightarrow> email \<Rightarrow> string \<Rightarrow> datetime \<Rightarrow> world \<Rightarrow> (exn + unit) \<times> world" where
  "try_block E email cpr date w =
     (case create_case E cpr date w of
        (Inl exc, w1) \<Rightarrow> (Inl exc, w1)
      | (Inr c, w1) \<Rightarrow>
          (case attach_email_to_case E email c w1 of
             (Inl exc, w2) \<Rightarrow> (Inl exc, w2)
           | (Inr _, w2) \<Rightarrow>
               (case move_email E w2 email archive_folder of
                  Some exc \<Rightarrow> (Inl exc, w2)
                | None \<Rightarrow> (Inr (), w2 @ [Move_email email archive_folder]))))"

text \<open>
  The identifier and the date are computed before the queue element exists and outside
  the \<open>try\<close>. The handler records an exception of the \<open>try\<close> on the queue element and
  raises it again.
\<close>

definition handle_email :: "env \<Rightarrow> email \<Rightarrow> world \<Rightarrow> (exn + unit) \<times> world" where
  "handle_email E email w =
     (case get_cpr_from_email email of
        Inl exc \<Rightarrow> (Inl exc, w)
      | Inr cpr \<Rightarrow>
          (case fromisoformat E (received_time email) of
             Inl exc \<Rightarrow> (Inl exc, w)
           | Inr date \<Rightarrow>
               (case create_queue_element (QUEUE_NAME E) (cpr @ '' - '' @ received_time email) w of
                  (queue_element, w1) \<Rightarrow>
                    (case try_block E email cpr date w1 of
                       (Inl exc, w2) \<Rightarrow>
                         (Inl exc, set_queue_element_status queue_element FAILED (Some (str_exn exc)) w2)
                     | (Inr _, w2) \<Rightarrow>
                         (Inr (), set_queue_element_status queue_element DONE None w2)))))"

subsection \<open>\<open>process\<close>\<close>

text \<open>The loop \<open>for email in emails: p_handle_email(email)\<close>: no handler around the call.\<close>

fun handle_emails :: "env \<Rightarrow> email list \<Rightarrow> world \<Rightarrow> (exn + unit) \<times> world" where
  "handle_emails E [] w = (Inr (), w)"
| "handle_emails E (email # emails) w =
     (case handle_email E email w of
        (Inl exc, w1) \<Rightarrow> (Inl exc, w1)
      | (Inr _, w1) \<Rightarrow> handle_emails E emails w1)"

definition process :: "env \<Rightarrow> world \<Rightarrow> (exn + unit) \<times> world" where
  "process E w =
     (let w1 = w @ [Log_trace ''Running process.''] in
      case authorize E w1 of
        Some exc \<Rightarrow> (Inl exc, w1)
      | None \<Rightarrow>
          (case get_emails E w1 of
             Inl exc \<Rightarrow> (Inl exc, w1)
           | Inr emails \<Rightarrow>
               (let w2 = w1 @ [Log_info (''Number of emails to journalize: '' @ string_of_nat (length emails))]
                in handle_emails E emails w2)))"

text \<open>
  The \<open>Document\<close> that \<open>attach_email_to_case\<close> builds for an email and the identifier of
  its uploaded file.
\<close>

definition the_document :: "email \<Rightarrow> string \<Rightarrow> Document" where
  "the_document email doc_uuid =
     \<lparr>document_uuid = doc_uuid,
      document_title = ''Email kvittering'',
      document_sensitivity = ''Fortrolige'',
      document_type = ''Indg'' @ aa @ ''ende'',
      document_date = received_time email,
      approved = True,
      description = ''Automatisk journaliseret af robot.''\<rparr>"

section \<open>Sample emails and sample worlds\<close>

text \<open>
  Three receipts, a receipt without the marker \<open>CPR-nummer\<close>, a receipt whose time of
  receipt is no ISO date, and three emails that the selection must leave out.
\<close>

definition mail1 :: email where
  "mail1 = \<lparr>sender = receipt_sender, subject = receipt_subject,
     received_time = ''2024-05-01T10:00:00'', get_text = ''CPR-nummer0101901234Adresse Torvet 1''\<rparr>"

definition mail2 :: email where
  "mail2 = \<lparr>sender = receipt_sender, subject = receipt_subject,
     received_time = ''2024-05-02T11:30:00'', get_text = ''CPR-nummer0202902345Adresse Havnen 2''\<rparr>"

definition mail3 :: email where
  "mail3 = \<lparr>sender = receipt_sender, subject = receipt_subject,
     received_time = ''2024-05-03T09:15:00'', get_text = ''CPR-nummer0303903456Adresse Skoven 3''\<rparr>"

definition mail_without_cpr :: email where
  "mail_without_cpr = \<lparr>sender = receipt_sender, subject = receipt_subject,
     received_time = ''2024-05-01T10:00:00'', get_text = ''Navn Anna Adresse Torvet 1''\<rparr>"

definition mail_undated :: email where
  "mail_undated = \<lparr>sender = receipt_sender, subject = receipt_subject,
     received_time = ''i dag'', get_text = ''CPR-nummer0101901234Adresse Torvet 1''\<rparr>"

definition from_stranger :: email where
  "from_stranger = \<lparr>sender = ''someone@aarhus.dk'', subject = receipt_subject,
     received_time = ''2024-05-01T10:05:00'', get_text = ''CPR-nummer0404904567Adresse Bakken 4''\<rparr>"

definition transliterated :: email where
  "transliterated = \<lparr>sender = receipt_sender, subject = ''Erklaering - oekonomisk fripladstilskud'',
     received_time = ''2024-05-01T10:10:00'', get_text = ''CPR-nummer0505905678Adresse Engen 5''\<rparr>"

definition newsletter :: email where
  "newsletter = \<lparr>sender = ''nyt@aarhus.dk'', subject = ''Nyhedsbrev'',
     received_time = ''2024-05-01T10:15:00'', get_text = ''Nyt fra kommunen''\<rparr>"

text \<open>
  \<open>calm\<close> is a world where every call succeeds. The others differ from it in one
  answer: \<open>refusing_move\<close> raises at the move, \<open>silent\<close> raises an exception without
  text at \<open>add_case\<close>, \<open>refusing_attach\<close> refuses the document of the second receipt,
  \<open>unknown_person\<close> raises at the lookup of the person, and \<open>mixed_inbox\<close> has five
  emails in the folder. \<open>existing_case\<close> is a case of the person of the first receipt, of
  the same year, and \<open>second_case\<close> the case that a new receipt of this person brings.
\<close>

definition calm :: env where
  "calm = \<lparr>QUEUE_NAME = ''Enlig forsoerger'',
     authorize = (\<lambda>w. None),
     get_emails_from_folder = (\<lambda>w user folder. Inr [mail1, mail2, mail3]),
     fromisoformat = (\<lambda>s.
        if s = ''2024-05-01T10:00:00''
        then Inr \<lparr>year = 2024, month = 5, day = 1, hour = 10, minute = 0, second = 0\<rparr>
        else if s = ''2024-05-02T11:30:00''
        then Inr \<lparr>year = 2024, month = 5, day = 2, hour = 11, minute = 30, second = 0\<rparr>
        else if s = ''2024-05-03T09:15:00''
        then Inr \<lparr>year = 2024, month = 5, day = 3, hour = 9, minute = 15, second = 0\<rparr>
        else Inl (Raised ''Invalid isoformat string'')),
     now = (\<lambda>w. \<lparr>year = 2024, month = 5, day = 6, hour = 7, minute = 0, second = 0\<rparr>),
     uuid4 = (\<lambda>w. ''uuid-'' @ string_of_nat (length w)),
     get_address_by_cpr = (\<lambda>w cpr. Inr [''name'' \<mapsto> ''Anna Jensen'']),
     add_case = (\<lambda>w c. None),
     get_email_as_mime = (\<lambda>w e. Inr (''Date: '' @ received_time e)),
     upload_document = (\<lambda>w mime filename. Inr (''doc-'' @ string_of_nat (length w))),
     attach_document_to_case = (\<lambda>w u d. None),
     move_email = (\<lambda>w e folder. None)\<rparr>"

definition refusing_move :: env where
  "refusing_move = calm\<lparr>move_email := (\<lambda>w e folder. Some (Raised ''folder not found''))\<rparr>"

definition silent :: env where
  "silent = calm\<lparr>add_case := (\<lambda>w c. Some (Raised []))\<rparr>"

definition mixed_inbox :: env where
  "mixed_inbox = calm\<lparr>get_emails_from_folder := (\<lambda>w user folder.
      if user = mailbox \<and> folder = source_folder
      then Inr [from_stranger, mail1, transliterated, newsletter, mail2]
      else Inl (Raised ''folder not found''))\<rparr>"

definition existing_case :: NovaCase where
  "existing_case =
     \<lparr>case_uuid = ''uuid-0'',
      case_title = ''Projekt enlig fors'' @ oe @ ''rger 2024'',
      case_date = \<lparr>year = 2024, month = 4, day = 2, hour = 8, minute = 0, second = 0\<rparr>,
      progress_state = ''Afsluttet'',
      case_parties = [\<lparr>role = ''Prim'' @ ae @ ''r'', identification_type = ''CprNummer'',
        identification = ''0101901234'', party_name = ''Anna Jensen'', party_uuid = None\<rparr>],
      kle_number = ''32.45.04'', proceeding_facet = ''G01'', case_sensitivity = ''Fortrolige'',
      responsible_department =
        \<lparr>department_id = 70363, department_name = ''Kontrolteamet'', user_key = ''4BKONTROL''\<rparr>,
      security_unit =
        \<lparr>department_id = 70363, department_name = ''Kontrolteamet'', user_key = ''4BKONTROL''\<rparr>,
      caseworker =
        \<lparr>caseworker_uuid = ''3eb31cbb-d6dc-4b01-9eec-0b415f5b89cb'',
         caseworker_name = ''Rpabruger Rpa15 - M'' @ AA @ '' IKKE SLETTES RITM0055928'',
         ident = ''AZRPA15''\<rparr>\<rparr>"

definition unknown_person :: env where
  "unknown_person = calm\<lparr>get_address_by_cpr := (\<lambda>w cpr. Inl (Raised ''person not found''))\<rparr>"

definition second_case :: NovaCase where
  "second_case = existing_case\<lparr>case_uuid := ''uuid-1'',
     case_date := \<lparr>year = 2024, month = 5, day = 1, hour = 10, minute = 0, second = 0\<rparr>\<rparr>"

definition refusing_attach :: env where
  "refusing_attach = calm\<lparr>attach_document_to_case := (\<lambda>w u d.
      if document_date d = ''2024-05-02T11:30:00'' then Some (Raised ''attach refused'') else None)\<rparr>"

section \<open>Properties\<close>

subsection \<open>The pattern search\<close>

text \<open>
  The pattern matches the texts \<open>CPR-nummer X Adresse\<close> with \<open>X\<close> not empty and free of
  line feeds. The search finds a match where there is one, the leftmost, and at that
  place the shortest.
\<close>

lemma match_lazy_complete:
  "X \<noteq> [] \<Longrightarrow> newline \<notin> set X \<Longrightarrow>
     \<exists>Y r. match_lazy (X @ ''Adresse'' @ post) = Some (Y, r) \<and> length Y \<le> length X"
proof (induction X)
  case Nil
  then show ?case by simp
next
  case (Cons c X)
  from Cons.prems have c: "c \<noteq> newline" by auto
  show ?case
  proof (cases "match_literal ''Adresse'' (X @ ''Adresse'' @ post)")
    case (Some rest)
    with c show ?thesis by simp
  next
    case None
    have "X \<noteq> []"
    proof
      assume "X = []"
      with None show False by simp
    qed
    moreover from Cons.prems have "newline \<notin> set X" by simp
    ultimately obtain Y r where
      "match_lazy (X @ ''Adresse'' @ post) = Some (Y, r)" "length Y \<le> length X"
      using Cons.IH by blast
    with None c show ?thesis by simp
  qed
qed

lemma match_at_complete:
  "X \<noteq> [] \<Longrightarrow> newline \<notin> set X \<Longrightarrow>
     \<exists>Y r. match_at (''CPR-nummer'' @ X @ ''Adresse'' @ post) = Some (Y, r) \<and> length Y \<le> length X"
proof -
  assume "X \<noteq> []" "newline \<notin> set X"
  from match_lazy_complete [OF this, of post] obtain Y r where
    "match_lazy (X @ ''Adresse'' @ post) = Some (Y, r)" "length Y \<le> length X" by blast
  moreover have "match_literal ''CPR-nummer'' (''CPR-nummer'' @ X @ ''Adresse'' @ post)
      = Some (X @ ''Adresse'' @ post)"
    by (simp only: match_literal_Some)
  ultimately show ?thesis by (simp add: match_at_def)
qed

lemma re_findall_sound:
  "re_findall s = Y # gs \<Longrightarrow>
     \<exists>p q. s = p @ ''CPR-nummer'' @ Y @ ''Adresse'' @ q \<and> Y \<noteq> [] \<and> newline \<notin> set Y"
proof (induction s rule: re_findall.induct)
  case 1
  then show ?case by simp
next
  case (2 c cs)
  show ?case
  proof (cases "match_at (c # cs)")
    case None
    with "2.prems" have "re_findall cs = Y # gs" by simp
    from "2.IH"(1) [OF None this] obtain p q where
      "cs = p @ ''CPR-nummer'' @ Y @ ''Adresse'' @ q" "Y \<noteq> []" "newline \<notin> set Y" by blast
    then have "c # cs = (c # p) @ ''CPR-nummer'' @ Y @ ''Adresse'' @ q \<and> Y \<noteq> [] \<and> newline \<notin> set Y"
      by simp
    then show ?thesis by blast
  next
    case (Some m)
    obtain g r where m: "m = (g, r)" by (cases m)
    with Some "2.prems" have "g = Y" by simp
    with Some m have "match_at (c # cs) = Some (Y, r)" by simp
    from match_at_sound [OF this]
    have "c # cs = [] @ ''CPR-nummer'' @ Y @ ''Adresse'' @ r \<and> Y \<noteq> [] \<and> newline \<notin> set Y"
      by simp
    then show ?thesis by blast
  qed
qed

lemma re_findall_first:
  "s = pre @ ''CPR-nummer'' @ X @ ''Adresse'' @ post \<Longrightarrow> X \<noteq> [] \<Longrightarrow> newline \<notin> set X \<Longrightarrow>
     \<exists>Y gs p q. re_findall s = Y # gs \<and> s = p @ ''CPR-nummer'' @ Y @ ''Adresse'' @ q \<and>
        Y \<noteq> [] \<and> newline \<notin> set Y \<and> length p \<le> length pre \<and>
        (length p = length pre \<longrightarrow> length Y \<le> length X)"
proof (induction pre arbitrary: s)
  case Nil
  from match_at_complete [OF Nil.prems(2,3), of post] obtain Y r where
    m: "match_at (''CPR-nummer'' @ X @ ''Adresse'' @ post) = Some (Y, r)" and l: "length Y \<le> length X"
    by blast
  from match_at_sound [OF m] have d: "''CPR-nummer'' @ X @ ''Adresse'' @ post = ''CPR-nummer'' @ Y @ ''Adresse'' @ r"
    and y: "Y \<noteq> []" "newline \<notin> set Y" by simp_all
  from Nil.prems(1) m have "re_findall s = Y # re_findall r" by simp
  moreover from Nil.prems(1) d have "s = [] @ ''CPR-nummer'' @ Y @ ''Adresse'' @ r" by simp
  moreover have "length ([]::string) \<le> length ([]::string)" by simp
  ultimately show ?case using y l by blast
next
  case (Cons a pre)
  let ?s' = "pre @ ''CPR-nummer'' @ X @ ''Adresse'' @ post"
  from Cons.prems(1) have s: "s = a # ?s'" by simp
  show ?case
  proof (cases "match_at s")
    case None
    from Cons.IH [OF refl Cons.prems(2,3)] obtain Y gs p q where
      f: "re_findall ?s' = Y # gs" and d: "?s' = p @ ''CPR-nummer'' @ Y @ ''Adresse'' @ q"
      and y: "Y \<noteq> []" "newline \<notin> set Y" and lp: "length p \<le> length pre"
      and ly: "length p = length pre \<longrightarrow> length Y \<le> length X"
      by blast
    from None s f have "re_findall s = Y # gs" by simp
    moreover from s d have "s = (a # p) @ ''CPR-nummer'' @ Y @ ''Adresse'' @ q" by simp
    moreover from lp have "length (a # p) \<le> length (a # pre)" by simp
    moreover from ly have "length (a # p) = length (a # pre) \<longrightarrow> length Y \<le> length X" by simp
    ultimately show ?thesis using y by blast
  next
    case (Some m)
    obtain Y r where m: "m = (Y, r)" by (cases m)
    with Some have ma: "match_at s = Some (Y, r)" by simp
    from match_at_sound [OF ma] have d: "s = [] @ ''CPR-nummer'' @ Y @ ''Adresse'' @ r"
      and y: "Y \<noteq> []" "newline \<notin> set Y" by simp_all
    from s ma have "re_findall s = Y # re_findall r" by simp
    moreover have "length ([]::string) \<le> length (a # pre)" by simp
    moreover have "length ([]::string) = length (a # pre) \<longrightarrow> length Y \<le> length X" by simp
    ultimately show ?thesis using d y by blast
  qed
qed

lemma re_findall_Nil_no_occurrence:
  assumes "re_findall s = []"
  shows "\<not> (\<exists>pre X post. s = pre @ ''CPR-nummer'' @ X @ ''Adresse'' @ post \<and> X \<noteq> [] \<and> newline \<notin> set X)"
proof
  assume "\<exists>pre X post. s = pre @ ''CPR-nummer'' @ X @ ''Adresse'' @ post \<and> X \<noteq> [] \<and> newline \<notin> set X"
  then obtain pre X post where "s = pre @ ''CPR-nummer'' @ X @ ''Adresse'' @ post" "X \<noteq> []" "newline \<notin> set X"
    by blast
  from re_findall_first [OF this] assms show False by auto
qed

lemma no_occurrence_re_findall_Nil:
  assumes "\<not> (\<exists>pre X post. s = pre @ ''CPR-nummer'' @ X @ ''Adresse'' @ post \<and> X \<noteq> [] \<and> newline \<notin> set X)"
  shows "re_findall s = []"
proof (cases "re_findall s")
  case Nil
  then show ?thesis .
next
  case (Cons Y gs)
  from re_findall_sound [OF this] assms show ?thesis by blast
qed

subsection \<open>Identifier extraction\<close>

text \<open>
  C6. When the pattern has no match in the text of the email, that is, when the text has
  no \<open>CPR-nummer\<close> followed by a text that is not empty and has no line feed and then by
  \<open>Adresse\<close>, \<open>get_cpr_from_email\<close> raises \<open>IndexError\<close>. It returns no default value.
\<close>

theorem get_cpr_from_email_no_match:
  assumes "\<not> (\<exists>pre X post. get_text email = pre @ ''CPR-nummer'' @ X @ ''Adresse'' @ post \<and>
                 X \<noteq> [] \<and> newline \<notin> set X)"
  shows "get_cpr_from_email email = Inl IndexError"
proof -
  from assms have "re_findall (get_text email) = []"
    by (rule no_occurrence_re_findall_Nil)
  then show ?thesis by (simp add: get_cpr_from_email_def)
qed

text \<open>A text with \<open>Adresse\<close> but without \<open>CPR-nummer\<close>.\<close>

theorem get_cpr_from_email_no_match_witness:
  "\<not> (\<exists>pre X post. get_text \<lparr>sender = ''noreply@aarhus.dk'', subject = ''Kvittering'',
          received_time = ''2024-05-01T10:00:00'', get_text = ''Navn Anna Adresse Torvet 1''\<rparr>
        = pre @ ''CPR-nummer'' @ X @ ''Adresse'' @ post \<and> X \<noteq> [] \<and> newline \<notin> set X) \<and>
   get_cpr_from_email \<lparr>sender = ''noreply@aarhus.dk'', subject = ''Kvittering'',
          received_time = ''2024-05-01T10:00:00'', get_text = ''Navn Anna Adresse Torvet 1''\<rparr>
     = Inl IndexError"
proof -
  have "re_findall ''Navn Anna Adresse Torvet 1'' = []"
    by (simp add: match_at_def)
  then have h: "\<not> (\<exists>pre X post. get_text \<lparr>sender = ''noreply@aarhus.dk'', subject = ''Kvittering'',
          received_time = ''2024-05-01T10:00:00'', get_text = ''Navn Anna Adresse Torvet 1''\<rparr>
        = pre @ ''CPR-nummer'' @ X @ ''Adresse'' @ post \<and> X \<noteq> [] \<and> newline \<notin> set X)"
    using re_findall_Nil_no_occurrence [of "''Navn Anna Adresse Torvet 1''"] by simp
  from h get_cpr_from_email_no_match [OF h] show ?thesis by (rule conjI)
qed

text \<open>
  C5, as stated, asks for the text between the markers whenever the body holds
  \<open>CPR-nummer\<close>, some \<open>X\<close> and \<open>Adresse\<close> in a row. Where the identifier stands on a line
  of its own, \<open>X\<close> begins and ends with a line feed, and the extraction raises.
\<close>

theorem get_cpr_from_email_line_break_counterexample:
  "get_text \<lparr>sender = ''noreply@aarhus.dk'', subject = ''Kvittering'',
          received_time = ''2024-05-01T10:00:00'',
          get_text = ''CPR-nummer'' @ [newline] @ ''1234567890'' @ [newline] @ ''Adresse''\<rparr>
     = [] @ ''CPR-nummer'' @ ([newline] @ ''1234567890'' @ [newline]) @ ''Adresse'' @ [] \<and>
   get_cpr_from_email \<lparr>sender = ''noreply@aarhus.dk'', subject = ''Kvittering'',
          received_time = ''2024-05-01T10:00:00'',
          get_text = ''CPR-nummer'' @ [newline] @ ''1234567890'' @ [newline] @ ''Adresse''\<rparr>
     = Inl IndexError"
  by (simp add: get_cpr_from_email_def match_at_def)

text \<open>
  C5, amended. When the text of the email holds \<open>CPR-nummer\<close>, a text \<open>X\<close> that is not
  empty and has no line feed, and \<open>Adresse\<close> in a row, \<open>get_cpr_from_email\<close> returns the
  group \<open>Y\<close> of the first match: it stands in the text between the two markers, is not
  empty and has no line feed, and it is returned as it stands there, untrimmed. Its match
  begins before the given occurrence, or at the same place with \<open>Y\<close> no longer than \<open>X\<close>.
  As this holds against every such occurrence, \<open>Y\<close> is the leftmost and there the shortest.
\<close>

theorem get_cpr_from_email_first_match:
  assumes "get_text email = pre @ ''CPR-nummer'' @ X @ ''Adresse'' @ post"
    and "X \<noteq> []" and "newline \<notin> set X"
  shows "\<exists>Y p q. get_cpr_from_email email = Inr Y \<and>
           get_text email = p @ ''CPR-nummer'' @ Y @ ''Adresse'' @ q \<and>
           Y \<noteq> [] \<and> newline \<notin> set Y \<and>
           (length p < length pre \<or> (p = pre \<and> length Y \<le> length X))"
proof -
  from re_findall_first [OF assms] obtain Y gs p q where
    f: "re_findall (get_text email) = Y # gs"
    and d: "get_text email = p @ ''CPR-nummer'' @ Y @ ''Adresse'' @ q"
    and y: "Y \<noteq> []" "newline \<notin> set Y"
    and lp: "length p \<le> length pre"
    and ly: "length p = length pre \<longrightarrow> length Y \<le> length X"
    by blast
  from f have g: "get_cpr_from_email email = Inr Y"
    by (simp add: get_cpr_from_email_def)
  have "length p < length pre \<or> (p = pre \<and> length Y \<le> length X)"
  proof (cases "length p < length pre")
    case True
    then show ?thesis by simp
  next
    case False
    with lp have e: "length p = length pre" by simp
    from d assms(1) have "p @ (''CPR-nummer'' @ Y @ ''Adresse'' @ q) = pre @ (''CPR-nummer'' @ X @ ''Adresse'' @ post)"
      by simp
    moreover have "\<And>a b. length p = length pre \<Longrightarrow> p @ a = pre @ b \<Longrightarrow> p = pre"
      by simp
    ultimately have "p = pre" using e by blast
    with e ly show ?thesis by simp
  qed
  with g d y show ?thesis by blast
qed

text \<open>The example of the specification: the ten digits come back as they are.\<close>

theorem get_cpr_from_email_first_match_witness:
  "get_text \<lparr>sender = ''noreply@aarhus.dk'', subject = ''Kvittering'',
          received_time = ''2024-05-01T10:00:00'',
          get_text = ''Navn Anna CPR-nummer1234567890Adresse Torvet 1''\<rparr>
     = ''Navn Anna '' @ ''CPR-nummer'' @ ''1234567890'' @ ''Adresse'' @ '' Torvet 1'' \<and>
   ''1234567890'' \<noteq> [] \<and> newline \<notin> set ''1234567890'' \<and>
   (\<exists>Y p q. get_cpr_from_email \<lparr>sender = ''noreply@aarhus.dk'', subject = ''Kvittering'',
          received_time = ''2024-05-01T10:00:00'',
          get_text = ''Navn Anna CPR-nummer1234567890Adresse Torvet 1''\<rparr> = Inr Y \<and>
      get_text \<lparr>sender = ''noreply@aarhus.dk'', subject = ''Kvittering'',
          received_time = ''2024-05-01T10:00:00'',
          get_text = ''Navn Anna CPR-nummer1234567890Adresse Torvet 1''\<rparr>
        = p @ ''CPR-nummer'' @ Y @ ''Adresse'' @ q \<and>
      Y \<noteq> [] \<and> newline \<notin> set Y \<and>
      (length p < length ''Navn Anna '' \<or> (p = ''Navn Anna '' \<and> length Y \<le> length ''1234567890''))) \<and>
   get_cpr_from_email \<lparr>sender = ''noreply@aarhus.dk'', subject = ''Kvittering'',
          received_time = ''2024-05-01T10:00:00'',
          get_text = ''Navn Anna CPR-nummer1234567890Adresse Torvet 1''\<rparr> = Inr ''1234567890''"
proof -
  let ?e = "\<lparr>sender = ''noreply@aarhus.dk'', subject = ''Kvittering'',
          received_time = ''2024-05-01T10:00:00'',
          get_text = ''Navn Anna CPR-nummer1234567890Adresse Torvet 1''\<rparr>"
  have h1: "get_text ?e = ''Navn Anna '' @ ''CPR-nummer'' @ ''1234567890'' @ ''Adresse'' @ '' Torvet 1''"
    by simp
  have h2: "''1234567890'' \<noteq> []" by simp
  have h3: "newline \<notin> set ''1234567890''" by (simp add: newline_def)
  have v: "get_cpr_from_email ?e = Inr ''1234567890''"
    by (simp add: get_cpr_from_email_def match_at_def newline_def)
  from h1 h2 h3 get_cpr_from_email_first_match [OF h1 h2 h3] v show ?thesis
    by (intro conjI)
qed

text \<open>
  C10, as stated, has the extraction fail whenever \<open>CPR-nummer\<close> is immediately followed
  by \<open>Adresse\<close>. With a second \<open>Adresse\<close> later on the line, the lazy group runs on to
  it and the extraction returns a text.
\<close>

theorem get_cpr_from_email_adjacent_markers_counterexample:
  "get_cpr_from_email \<lparr>sender = ''noreply@aarhus.dk'', subject = ''Kvittering'',
          received_time = ''2024-05-01T10:00:00'',
          get_text = ''CPR-nummerAdresse1Adresse''\<rparr> = Inr ''Adresse1''"
  by (simp add: get_cpr_from_email_def match_at_def newline_def)

text \<open>
  C10, amended. \<open>get_cpr_from_email\<close> never returns the empty string, and never a text
  with a line feed. When every \<open>CPR-nummer\<close> of the text that is followed by an
  \<open>Adresse\<close> has between the two either nothing or a text with a line feed, it raises
  \<open>IndexError\<close>.
\<close>

theorem get_cpr_from_email_never_empty:
  "get_cpr_from_email email \<noteq> Inr [] \<and>
   (\<forall>Y. get_cpr_from_email email = Inr Y \<longrightarrow> newline \<notin> set Y) \<and>
   ((\<forall>pre X post. get_text email = pre @ ''CPR-nummer'' @ X @ ''Adresse'' @ post \<longrightarrow>
        X = [] \<or> newline \<in> set X) \<longrightarrow>
    get_cpr_from_email email = Inl IndexError)"
proof (intro conjI allI impI)
  show "get_cpr_from_email email \<noteq> Inr []"
  proof
    assume "get_cpr_from_email email = Inr []"
    then obtain gs where "re_findall (get_text email) = [] # gs"
      by (auto simp: get_cpr_from_email_def split: list.splits)
    from re_findall_sound [OF this] show False by simp
  qed
next
  fix Y
  assume "get_cpr_from_email email = Inr Y"
  then obtain gs where "re_findall (get_text email) = Y # gs"
    by (auto simp: get_cpr_from_email_def split: list.splits)
  from re_findall_sound [OF this] show "newline \<notin> set Y" by simp
next
  assume a: "\<forall>pre X post. get_text email = pre @ ''CPR-nummer'' @ X @ ''Adresse'' @ post \<longrightarrow>
        X = [] \<or> newline \<in> set X"
  have "re_findall (get_text email) = []"
  proof (rule no_occurrence_re_findall_Nil)
    from a show "\<not> (\<exists>pre X post. get_text email = pre @ ''CPR-nummer'' @ X @ ''Adresse'' @ post \<and>
        X \<noteq> [] \<and> newline \<notin> set X)" by blast
  qed
  then show "get_cpr_from_email email = Inl IndexError"
    by (simp add: get_cpr_from_email_def)
qed

text \<open>The text \<open>CPR-nummerAdresse\<close>, with nothing between the markers and nothing after.\<close>

theorem get_cpr_from_email_never_empty_witness:
  "\<not> (\<exists>pre X post. get_text \<lparr>sender = ''noreply@aarhus.dk'', subject = ''Kvittering'',
          received_time = ''2024-05-01T10:00:00'', get_text = ''CPR-nummerAdresse''\<rparr>
        = pre @ ''CPR-nummer'' @ X @ ''Adresse'' @ post \<and> X \<noteq> [] \<and> newline \<notin> set X) \<and>
   get_cpr_from_email \<lparr>sender = ''noreply@aarhus.dk'', subject = ''Kvittering'',
          received_time = ''2024-05-01T10:00:00'', get_text = ''CPR-nummerAdresse''\<rparr>
     \<noteq> Inr [] \<and>
   get_cpr_from_email \<lparr>sender = ''noreply@aarhus.dk'', subject = ''Kvittering'',
          received_time = ''2024-05-01T10:00:00'', get_text = ''CPR-nummerAdresse''\<rparr>
     = Inl IndexError"
proof -
  let ?e = "\<lparr>sender = ''noreply@aarhus.dk'', subject = ''Kvittering'',
          received_time = ''2024-05-01T10:00:00'', get_text = ''CPR-nummerAdresse''\<rparr>"
  have "re_findall ''CPR-nummerAdresse'' = []"
    by (simp add: match_at_def newline_def)
  from re_findall_Nil_no_occurrence [OF this]
  have n: "\<not> (\<exists>pre X post. get_text ?e = pre @ ''CPR-nummer'' @ X @ ''Adresse'' @ post \<and>
        X \<noteq> [] \<and> newline \<notin> set X)"
    by simp
  then have h: "\<forall>pre X post. get_text ?e = pre @ ''CPR-nummer'' @ X @ ''Adresse'' @ post \<longrightarrow>
        X = [] \<or> newline \<in> set X"
    by blast
  from get_cpr_from_email_never_empty [of ?e] h
  have "get_cpr_from_email ?e \<noteq> Inr []" and "get_cpr_from_email ?e = Inl IndexError"
    by blast+
  with n show ?thesis by (intro conjI)
qed

subsection \<open>Decimal numerals\<close>

text \<open>
  \<open>string_of_nat n\<close> is the decimal numeral of \<open>n\<close>: digits only, no leading zero, and
  read as a decimal number it is \<open>n\<close>.
\<close>

lemma digit_char_value: "k < 10 \<Longrightarrow> of_char (''0123456789'' ! k) = 48 + k"
proof -
  assume "k < 10"
  then have "k = 0 \<or> k = 1 \<or> k = 2 \<or> k = 3 \<or> k = 4 \<or> k = 5 \<or> k = 6 \<or> k = 7 \<or>
    k = 8 \<or> k = 9" by arith
  then show ?thesis by (elim disjE) simp_all
qed

lemma digit_char_in: "k < 10 \<Longrightarrow> ''0123456789'' ! k \<in> set ''0123456789''"
  by (rule nth_mem) simp

lemma digit_char_zero: "k < 10 \<Longrightarrow> ''0123456789'' ! k = CHR ''0'' \<Longrightarrow> k = 0"
proof -
  assume k: "k < 10" and z: "''0123456789'' ! k = CHR ''0''"
  from digit_char_value [OF k] z have "(48::nat) + k = of_char (CHR ''0'')" by simp
  then show ?thesis by simp
qed

lemma string_of_nat_decimal:
  "string_of_nat n \<noteq> [] \<and> set (string_of_nat n) \<subseteq> set ''0123456789'' \<and>
   (hd (string_of_nat n) = CHR ''0'' \<longrightarrow> n = 0) \<and>
   foldl (\<lambda>a d. 10 * a + (of_char d - 48)) 0 (string_of_nat n) = n"
proof (induction n rule: string_of_nat.induct)
  case (1 n)
  show ?case
  proof (cases "n < 10")
    case True
    then have s: "string_of_nat n = [''0123456789'' ! n]"
      by (subst string_of_nat.simps) simp
    have "(of_char (''0123456789'' ! n) :: nat) - 48 = n"
      using digit_char_value [OF True] by simp
    with s digit_char_in [OF True] digit_char_zero [OF True] show ?thesis by simp
  next
    case False
    then have s: "string_of_nat n = string_of_nat (n div 10) @ [''0123456789'' ! (n mod 10)]"
      by (subst string_of_nat.simps) simp
    have m: "n mod 10 < 10" by simp
    from "1.IH" [OF False] have ih1: "string_of_nat (n div 10) \<noteq> []"
      and ih2: "set (string_of_nat (n div 10)) \<subseteq> set ''0123456789''"
      and ih3: "hd (string_of_nat (n div 10)) = CHR ''0'' \<longrightarrow> n div 10 = 0"
      and ih4: "foldl (\<lambda>a d. 10 * a + (of_char d - 48)) 0 (string_of_nat (n div 10)) = n div 10"
      by blast+
    have v: "(of_char (''0123456789'' ! (n mod 10)) :: nat) - 48 = n mod 10"
      using digit_char_value [OF m] by simp
    have "string_of_nat n \<noteq> []" using s by simp
    moreover have "set (string_of_nat n) \<subseteq> set ''0123456789''"
      using s ih2 digit_char_in [OF m] by simp
    moreover have "hd (string_of_nat n) = CHR ''0'' \<longrightarrow> n = 0"
    proof
      assume "hd (string_of_nat n) = CHR ''0''"
      with s ih1 have "hd (string_of_nat (n div 10)) = CHR ''0''" by simp
      with ih3 have "n div 10 = 0" by blast
      with False show "n = 0" by simp
    qed
    moreover have "foldl (\<lambda>a d. 10 * a + (of_char d - 48)) 0 (string_of_nat n) = n"
      using s ih4 v by simp
    ultimately show ?thesis by blast
  qed
qed

subsection \<open>The events of the workflow\<close>

lemma created_queue_elements_append [simp]:
  "created_queue_elements (a @ b) = created_queue_elements a @ created_queue_elements b"
  by (induction a rule: created_queue_elements.induct) auto

lemma status_updates_append [simp]:
  "status_updates i (a @ b) = status_updates i a @ status_updates i b"
  by (induction i a rule: status_updates.induct) auto

lemma created_cases_append [simp]:
  "created_cases (a @ b) = created_cases a @ created_cases b"
  by (induction a rule: created_cases.induct) auto

lemma uploaded_documents_append [simp]:
  "uploaded_documents (a @ b) = uploaded_documents a @ uploaded_documents b"
  by (induction a rule: uploaded_documents.induct) auto

lemma attached_documents_append [simp]:
  "attached_documents (a @ b) = attached_documents a @ attached_documents b"
  by (induction a rule: attached_documents.induct) auto

lemma moved_emails_append [simp]:
  "moved_emails (a @ b) = moved_emails a @ moved_emails b"
  by (induction a rule: moved_emails.induct) auto

lemma steps_append [simp]: "steps (a @ b) = steps a @ steps b"
  by (induction a rule: steps.induct) auto

lemma create_case_trace:
  "create_case E cpr date w = (r, w') \<Longrightarrow>
     (\<exists>exc. r = Inl exc \<and> w' = w) \<or> (\<exists>c. r = Inr c \<and> w' = w @ [Add_case c])"
  by (auto simp: create_case_def Let_def split: sum.splits option.splits)

lemma attach_email_to_case_trace:
  "attach_email_to_case E email c w = (r, w') \<Longrightarrow>
     \<exists>mime u.
       (\<exists>exc. r = Inl exc \<and> (w' = w \<or> w' = w @ [Upload_document mime ''Email kvittering.eml'' u])) \<or>
       (r = Inr () \<and> w' = w @ [Upload_document mime ''Email kvittering.eml'' u,
           Attach_document_to_case (case_uuid c) (the_document email u)])"
  by (auto simp: attach_email_to_case_def the_document_def Let_def split: sum.splits option.splits)

lemma try_block_trace:
  assumes "try_block E email cpr date w = (r, w')"
  shows "\<exists>c mime u.
     (\<exists>exc. r = Inl exc \<and>
        (w' = w \<or> w' = w @ [Add_case c] \<or>
         w' = w @ [Add_case c, Upload_document mime ''Email kvittering.eml'' u])) \<or>
     (r = Inr () \<and> w' = w @ [Add_case c, Upload_document mime ''Email kvittering.eml'' u,
         Attach_document_to_case (case_uuid c) (the_document email u),
         Move_email email archive_folder]) \<or>
     (\<exists>exc. r = Inl exc \<and> w' = w @ [Add_case c, Upload_document mime ''Email kvittering.eml'' u,
         Attach_document_to_case (case_uuid c) (the_document email u)])"
proof -
  obtain r1 w1 where cc: "create_case E cpr date w = (r1, w1)" by (cases "create_case E cpr date w")
  show ?thesis
  proof (cases r1)
    case (Inl exc)
    with cc assms have "r = Inl exc" "w' = w1" by (auto simp: try_block_def)
    moreover from create_case_trace [OF cc] Inl have "w1 = w" by auto
    ultimately show ?thesis by blast
  next
    case (Inr c)
    with create_case_trace [OF cc] have w1: "w1 = w @ [Add_case c]" by auto
    obtain r2 w2 where at: "attach_email_to_case E email c w1 = (r2, w2)"
      by (cases "attach_email_to_case E email c w1")
    from attach_email_to_case_trace [OF at] obtain mime u where
      tr: "(\<exists>exc. r2 = Inl exc \<and> (w2 = w1 \<or> w2 = w1 @ [Upload_document mime ''Email kvittering.eml'' u])) \<or>
       (r2 = Inr () \<and> w2 = w1 @ [Upload_document mime ''Email kvittering.eml'' u,
           Attach_document_to_case (case_uuid c) (the_document email u)])" by blast
    show ?thesis
    proof (cases r2)
      case (Inl exc)
      with cc Inr at assms have "r = Inl exc" "w' = w2" by (auto simp: try_block_def)
      moreover from tr Inl w1 have "w2 = w @ [Add_case c] \<or> w2 = w @ [Add_case c, Upload_document mime ''Email kvittering.eml'' u]"
        by auto
      ultimately show ?thesis by blast
    next
      case (Inr u')
      with tr w1 have w2: "w2 = w @ [Add_case c, Upload_document mime ''Email kvittering.eml'' u,
           Attach_document_to_case (case_uuid c) (the_document email u)]" by auto
      show ?thesis
      proof (cases "move_email E w2 email archive_folder")
        case None
        with cc \<open>r1 = Inr c\<close> at Inr assms have "r = Inr ()" "w' = w2 @ [Move_email email archive_folder]"
          by (auto simp: try_block_def)
        with w2 show ?thesis by auto
      next
        case (Some exc)
        with cc \<open>r1 = Inr c\<close> at Inr assms have "r = Inl exc" "w' = w2"
          by (auto simp: try_block_def)
        with w2 show ?thesis by blast
      qed
    qed
  qed
qed

lemma handle_email_trace:
  assumes "handle_email E email w = (r, w')"
  shows "(\<exists>exc. r = Inl exc \<and> w' = w \<and>
            (get_cpr_from_email email = Inl exc \<or>
             (\<exists>cpr. get_cpr_from_email email = Inr cpr \<and> fromisoformat E (received_time email) = Inl exc))) \<or>
         (\<exists>cpr date w2.
            get_cpr_from_email email = Inr cpr \<and> fromisoformat E (received_time email) = Inr date \<and>
            try_block E email cpr date
              (w @ [Create_queue_element (QUEUE_NAME E) (cpr @ '' - '' @ received_time email)]) = (r, w2) \<and>
            w' = w2 @ [Set_queue_element_status (length (created_queue_elements w))
                        (case r of Inl _ \<Rightarrow> FAILED | Inr _ \<Rightarrow> DONE)
                        (case r of Inl exc \<Rightarrow> Some (str_exn exc) | Inr _ \<Rightarrow> None)])"
  using assms
  by (auto simp: handle_email_def create_queue_element_def set_queue_element_status_def
      split: sum.splits prod.splits)

lemma queue_status_append_update:
  "queue_status (w @ [Set_queue_element_status i st msg]) i = st"
proof -
  have "\<And>xs y. (case xs @ [y] of [] \<Rightarrow> NEW | us \<Rightarrow> fst (last us)) = fst (y :: QueueStatus \<times> string option)"
    by (case_tac xs) simp_all
  then show ?thesis by (simp add: queue_status_def)
qed

lemma try_block_views:
  assumes "try_block E email cpr date w = (r, w')"
  shows "\<exists>mid. w' = w @ mid \<and> created_queue_elements mid = [] \<and> (\<forall>i. status_updates i mid = []) \<and>
           (\<forall>exc. r = Inl exc \<longrightarrow> moved_emails mid = [])"
  using try_block_trace [OF assms] by auto

lemma handle_emails_append:
  "handle_emails E before w = (Inr (), w1) \<Longrightarrow>
     handle_emails E (before @ rest) w = handle_emails E rest w1"
proof (induction before arbitrary: w)
  case Nil
  then show ?case by simp
next
  case (Cons a before)
  obtain r wa where h: "handle_email E a w = (r, wa)" by (cases "handle_email E a w")
  show ?case
  proof (cases r)
    case (Inl exc)
    with h Cons.prems show ?thesis by simp
  next
    case (Inr u)
    with h Cons.prems have "handle_emails E before wa = (Inr (), w1)" by simp
    from Cons.IH [OF this] h Inr show ?thesis by simp
  qed
qed

subsection \<open>Evaluating the sample runs\<close>

text \<open>The definitions of the model that a run of the handler unfolds.\<close>

lemmas run_defs =
  handle_email_def get_cpr_from_email_def match_at_def newline_def create_queue_element_def
  set_queue_element_status_def try_block_def create_case_def attach_email_to_case_def
  Let_def string_of_nat.simps mailbox_def source_folder_def archive_folder_def
  receipt_sender_def receipt_subject_def ae_def oe_def aa_def AA_def the_document_def

lemma cpr_mail1: "get_cpr_from_email mail1 = Inr ''0101901234''"
  by (simp add: get_cpr_from_email_def match_at_def newline_def mail1_def)

lemma cpr_mail2: "get_cpr_from_email mail2 = Inr ''0202902345''"
  by (simp add: get_cpr_from_email_def match_at_def newline_def mail2_def)

lemma pair_fst_snd: "fst p = a \<Longrightarrow> p = (a, snd p)"
  by (cases p) simp

lemma run_first: "fst (handle_emails refusing_attach [mail1] []) = Inr ()"
  by (simp add: run_defs refusing_attach_def calm_def mail1_def)

lemma run_second:
  "fst (handle_email refusing_attach mail2 (snd (handle_emails refusing_attach [mail1] [])))
     = Inl (Raised ''attach refused'')"
  by (simp add: run_defs refusing_attach_def calm_def mail1_def mail2_def)

subsection \<open>Email selection\<close>

text \<open>
  C4. Whatever list of emails the mail gateway returns for the mailbox
  \<open>kontrolteamet@mkb.aarhus.dk\<close> and the folder of receipts, \<open>get_emails\<close> returns the
  sub-sequence of the emails whose sender is \<open>noreply@aarhus.dk\<close> and whose subject is
  the subject line of the source (\<open>Erkl\<close>, the letter ae, \<open>ring - \<close>, the letter
  o with stroke, \<open>konomisk fripladstilskud\<close>), byte for byte: it keeps the order, an
  email is selected exactly when it is in the list and meets both conditions, and every
  other email is left out.
\<close>

theorem get_emails_selects:
  assumes "get_emails_from_folder E w mailbox source_folder = Inr mails"
  shows "\<exists>selected.
     get_emails E w = Inr selected \<and>
     selected = filter (\<lambda>mail. sender mail = ''noreply@aarhus.dk'' \<and>
        subject mail = ''Erkl'' @ [CHR 0xC3, CHR 0xA6] @ ''ring - '' @ [CHR 0xC3, CHR 0xB8] @
           ''konomisk fripladstilskud'') mails \<and>
     subseq selected mails \<and>
     (\<forall>mail. (mail \<in> set selected) =
        (mail \<in> set mails \<and> sender mail = ''noreply@aarhus.dk'' \<and>
         subject mail = ''Erkl'' @ [CHR 0xC3, CHR 0xA6] @ ''ring - '' @ [CHR 0xC3, CHR 0xB8] @
           ''konomisk fripladstilskud''))"
proof -
  let ?P = "\<lambda>mail. sender mail = ''noreply@aarhus.dk'' \<and>
        subject mail = ''Erkl'' @ [CHR 0xC3, CHR 0xA6] @ ''ring - '' @ [CHR 0xC3, CHR 0xB8] @
           ''konomisk fripladstilskud''"
  from assms have "get_emails E w = Inr (filter ?P mails)"
    by (simp add: get_emails_def receipt_sender_def receipt_subject_def ae_def oe_def)
  moreover have "subseq (filter ?P mails) mails" by (rule subseq_filter_left)
  moreover have "\<forall>mail. (mail \<in> set (filter ?P mails)) = (mail \<in> set mails \<and> ?P mail)"
    by simp
  ultimately show ?thesis by blast
qed

text \<open>
  Five emails in the folder: a foreign sender, a transliterated subject and a newsletter
  are left out, the two receipts stay in their order.
\<close>

theorem get_emails_selects_witness:
  "get_emails_from_folder mixed_inbox [] mailbox source_folder
     = Inr [from_stranger, mail1, transliterated, newsletter, mail2] \<and>
   get_emails mixed_inbox [] = Inr [mail1, mail2]"
proof -
  have g: "get_emails_from_folder mixed_inbox [] mailbox source_folder
     = Inr [from_stranger, mail1, transliterated, newsletter, mail2]"
    by (simp add: mixed_inbox_def calm_def)
  from get_emails_selects [OF g]
  have "get_emails mixed_inbox [] = Inr [mail1, mail2]"
    by (simp add: mail1_def mail2_def from_stranger_def transliterated_def newsletter_def
        receipt_sender_def receipt_subject_def ae_def oe_def)
  with g show ?thesis by (rule conjI)
qed

subsection \<open>Case creation\<close>

text \<open>
  C7, as stated, has \<open>create_case\<close> persist a case for every identifier. It first looks up
  the person, and when this lookup raises, the exception leaves \<open>create_case\<close> and no case
  is built or persisted.
\<close>

theorem create_case_lookup_raises_counterexample:
  "create_case unknown_person ''0101901234''
      \<lparr>year = 2024, month = 5, day = 1, hour = 10, minute = 0, second = 0\<rparr> []
     = (Inl (Raised ''person not found''), []) \<and>
   created_cases (snd (create_case unknown_person ''0101901234''
      \<lparr>year = 2024, month = 5, day = 1, hour = 10, minute = 0, second = 0\<rparr> [])) = []"
  by (simp add: create_case_def unknown_person_def calm_def)

text \<open>
  C7, amended. For every identifier and case date, in every world, whatever cases the
  backend holds already: when the lookup of the person gives a name, \<open>create_case\<close> builds
  the case \<open>c\<close> with the identifier that the generator has just produced, the title of the
  source followed by the year of the clock, the given case date, the progress state
  \<open>Afsluttet\<close>, one case party (the person looked up, with the role of the source, the
  Danish word for primary), the KLE number \<open>32.45.04\<close>, the sensitivity \<open>Fortrolige\<close> and
  the fixed department and caseworker. When the backend accepts \<open>c\<close>, exactly this one case
  is added to the backend and \<open>c\<close> is returned; when the backend refuses \<open>c\<close>, its
  exception is raised and nothing is added. When the lookup raises, or its answer has no
  name, the exception is raised and nothing is added. No existing case is looked for. The
  year stands in the title as its decimal numeral.
\<close>

theorem create_case_outcomes:
  "(get_address_by_cpr E w cpr = Inl exc \<longrightarrow> create_case E cpr date w = (Inl exc, w)) \<and>
   (get_address_by_cpr E w cpr = Inr address \<and> address ''name'' = None \<longrightarrow>
      create_case E cpr date w = (Inl (KeyError ''name''), w)) \<and>
   (get_address_by_cpr E w cpr = Inr address \<and> address ''name'' = Some name \<and>
    c = \<lparr>case_uuid = uuid4 E w,
         case_title = ''Projekt enlig fors'' @ [CHR 0xC3, CHR 0xB8] @ ''rger '' @
            string_of_nat (year (now E w)),
         case_date = date,
         progress_state = ''Afsluttet'',
         case_parties =
           [\<lparr>role = ''Prim'' @ [CHR 0xC3, CHR 0xA6] @ ''r'', identification_type = ''CprNummer'',
             identification = cpr, party_name = name, party_uuid = None\<rparr>],
         kle_number = ''32.45.04'',
         proceeding_facet = ''G01'',
         case_sensitivity = ''Fortrolige'',
         responsible_department =
           \<lparr>department_id = 70363, department_name = ''Kontrolteamet'', user_key = ''4BKONTROL''\<rparr>,
         security_unit =
           \<lparr>department_id = 70363, department_name = ''Kontrolteamet'', user_key = ''4BKONTROL''\<rparr>,
         caseworker =
           \<lparr>caseworker_uuid = ''3eb31cbb-d6dc-4b01-9eec-0b415f5b89cb'',
            caseworker_name = ''Rpabruger Rpa15 - M'' @ [CHR 0xC3, CHR 0x85] @
               '' IKKE SLETTES RITM0055928'',
            ident = ''AZRPA15''\<rparr>\<rparr> \<longrightarrow>
      (add_case E w c = Some exc \<longrightarrow> create_case E cpr date w = (Inl exc, w)) \<and>
      (add_case E w c = None \<longrightarrow>
         create_case E cpr date w = (Inr c, w @ [Add_case c]) \<and>
         created_cases (w @ [Add_case c]) = created_cases w @ [c])) \<and>
   string_of_nat (year (now E w)) \<noteq> [] \<and>
   set (string_of_nat (year (now E w))) \<subseteq> set ''0123456789'' \<and>
   (hd (string_of_nat (year (now E w))) = CHR ''0'' \<longrightarrow> year (now E w) = 0) \<and>
   foldl (\<lambda>a d. 10 * a + (of_char d - 48)) 0 (string_of_nat (year (now E w))) = year (now E w)"
proof (intro conjI impI)
  assume "get_address_by_cpr E w cpr = Inl exc"
  then show "create_case E cpr date w = (Inl exc, w)"
    by (simp add: create_case_def)
next
  assume "get_address_by_cpr E w cpr = Inr address \<and> address ''name'' = None"
  then show "create_case E cpr date w = (Inl (KeyError ''name''), w)"
    by (simp add: create_case_def)
next
  show "string_of_nat (year (now E w)) \<noteq> []"
    using string_of_nat_decimal [of "year (now E w)"] by blast
  show "set (string_of_nat (year (now E w))) \<subseteq> set ''0123456789''"
    using string_of_nat_decimal [of "year (now E w)"] by blast
  show "foldl (\<lambda>a d. 10 * a + (of_char d - 48)) 0 (string_of_nat (year (now E w))) = year (now E w)"
    using string_of_nat_decimal [of "year (now E w)"] by blast
next
  assume "hd (string_of_nat (year (now E w))) = CHR ''0''"
  then show "year (now E w) = 0"
    using string_of_nat_decimal [of "year (now E w)"] by blast
next
  assume a: "get_address_by_cpr E w cpr = Inr address \<and> address ''name'' = Some name \<and>
    c = \<lparr>case_uuid = uuid4 E w,
         case_title = ''Projekt enlig fors'' @ [CHR 0xC3, CHR 0xB8] @ ''rger '' @
            string_of_nat (year (now E w)),
         case_date = date,
         progress_state = ''Afsluttet'',
         case_parties =
           [\<lparr>role = ''Prim'' @ [CHR 0xC3, CHR 0xA6] @ ''r'', identification_type = ''CprNummer'',
             identification = cpr, party_name = name, party_uuid = None\<rparr>],
         kle_number = ''32.45.04'',
         proceeding_facet = ''G01'',
         case_sensitivity = ''Fortrolige'',
         responsible_department =
           \<lparr>department_id = 70363, department_name = ''Kontrolteamet'', user_key = ''4BKONTROL''\<rparr>,
         security_unit =
           \<lparr>department_id = 70363, department_name = ''Kontrolteamet'', user_key = ''4BKONTROL''\<rparr>,
         caseworker =
           \<lparr>caseworker_uuid = ''3eb31cbb-d6dc-4b01-9eec-0b415f5b89cb'',
            caseworker_name = ''Rpabruger Rpa15 - M'' @ [CHR 0xC3, CHR 0x85] @
               '' IKKE SLETTES RITM0055928'',
            ident = ''AZRPA15''\<rparr>\<rparr>"
  {
    assume "add_case E w c = Some exc"
    with a show "create_case E cpr date w = (Inl exc, w)"
      by (simp add: create_case_def Let_def oe_def ae_def AA_def)
  }
  {
    assume "add_case E w c = None"
    with a show "create_case E cpr date w = (Inr c, w @ [Add_case c])"
      by (simp add: create_case_def Let_def oe_def ae_def AA_def)
  }
  show "created_cases (w @ [Add_case c]) = created_cases w @ [c]" by simp
qed

text \<open>
  A backend that already holds a case of this person and year: a second case with the
  same title and party is created beside it.
\<close>

theorem create_case_outcomes_witness:
  "get_address_by_cpr calm [Add_case existing_case] ''0101901234'' = Inr [''name'' \<mapsto> ''Anna Jensen''] \<and>
   [''name'' \<mapsto> ''Anna Jensen''] ''name'' = Some ''Anna Jensen'' \<and>
   case_uuid second_case = uuid4 calm [Add_case existing_case] \<and>
   add_case calm [Add_case existing_case] second_case = None \<and>
   create_case calm ''0101901234''
       \<lparr>year = 2024, month = 5, day = 1, hour = 10, minute = 0, second = 0\<rparr>
       [Add_case existing_case]
     = (Inr second_case, [Add_case existing_case] @ [Add_case second_case]) \<and>
   created_cases ([Add_case existing_case] @ [Add_case second_case]) = [existing_case, second_case] \<and>
   case_title second_case = case_title existing_case \<and>
   case_parties second_case = case_parties existing_case \<and>
   kle_number second_case = kle_number existing_case \<and>
   case_uuid second_case \<noteq> case_uuid existing_case \<and>
   string_of_nat (year (now calm [Add_case existing_case])) = ''2024'' \<and>
   foldl (\<lambda>a d. 10 * a + (of_char d - 48)) 0 ''2024'' = (2024::nat)"
proof -
  let ?d = "\<lparr>year = 2024, month = 5, day = 1, hour = 10, minute = 0, second = 0\<rparr>"
  let ?w = "[Add_case existing_case]"
  have a: "get_address_by_cpr calm ?w ''0101901234'' = Inr [''name'' \<mapsto> ''Anna Jensen'']"
    by (simp add: calm_def)
  have n: "[''name'' \<mapsto> ''Anna Jensen''] ''name'' = Some ''Anna Jensen''" by simp
  have u: "uuid4 calm ?w = ''uuid-1''" by (simp add: calm_def string_of_nat.simps)
  have y: "string_of_nat (year (now calm ?w)) = ''2024''"
    by (simp add: calm_def string_of_nat.simps)
  have c: "second_case =
      \<lparr>case_uuid = uuid4 calm ?w,
         case_title = ''Projekt enlig fors'' @ [CHR 0xC3, CHR 0xB8] @ ''rger '' @
            string_of_nat (year (now calm ?w)),
         case_date = ?d,
         progress_state = ''Afsluttet'',
         case_parties =
           [\<lparr>role = ''Prim'' @ [CHR 0xC3, CHR 0xA6] @ ''r'', identification_type = ''CprNummer'',
             identification = ''0101901234'', party_name = ''Anna Jensen'', party_uuid = None\<rparr>],
         kle_number = ''32.45.04'',
         proceeding_facet = ''G01'',
         case_sensitivity = ''Fortrolige'',
         responsible_department =
           \<lparr>department_id = 70363, department_name = ''Kontrolteamet'', user_key = ''4BKONTROL''\<rparr>,
         security_unit =
           \<lparr>department_id = 70363, department_name = ''Kontrolteamet'', user_key = ''4BKONTROL''\<rparr>,
         caseworker =
           \<lparr>caseworker_uuid = ''3eb31cbb-d6dc-4b01-9eec-0b415f5b89cb'',
            caseworker_name = ''Rpabruger Rpa15 - M'' @ [CHR 0xC3, CHR 0x85] @
               '' IKKE SLETTES RITM0055928'',
            ident = ''AZRPA15''\<rparr>\<rparr>"
    unfolding u y by (simp add: second_case_def existing_case_def oe_def ae_def AA_def)
  have b: "add_case calm ?w second_case = None" by (simp add: calm_def)
  from create_case_outcomes [of calm ?w "''0101901234''" _ ?d "[''name'' \<mapsto> ''Anna Jensen'']"
      "''Anna Jensen''" second_case] a n c b
  have r: "create_case calm ''0101901234'' ?d ?w = (Inr second_case, ?w @ [Add_case second_case])"
    and v: "foldl (\<lambda>a d. 10 * a + (of_char d - 48)) 0 (string_of_nat (year (now calm ?w)))
      = year (now calm ?w)"
    by blast+
  from v y have f: "foldl (\<lambda>a d. 10 * a + (of_char d - 48)) 0 ''2024'' = (2024::nat)"
    by (simp add: calm_def)
  have i: "case_uuid second_case = uuid4 calm ?w"
    unfolding u by (simp add: second_case_def)
  have l: "created_cases (?w @ [Add_case second_case]) = [existing_case, second_case]" by simp
  have t: "case_title second_case = case_title existing_case"
    "case_parties second_case = case_parties existing_case"
    "kle_number second_case = kle_number existing_case"
    "case_uuid second_case \<noteq> case_uuid existing_case"
    by (simp_all add: second_case_def existing_case_def)
  from a n i b r l t y f show ?thesis by (intro conjI)
qed

subsection \<open>Handling one email\<close>

text \<open>
  C1. When \<open>handle_email\<close> returns without an exception, it has created exactly one queue
  element, set the status of this element once, to \<open>DONE\<close>, and the status of no other,
  created exactly one case, uploaded exactly one document and attached it to that case,
  and moved the email once, to the archive folder.
\<close>

theorem handle_email_done:
  assumes "handle_email E email w = (Inr (), w')"
  shows "\<exists>cpr c mime u.
     get_cpr_from_email email = Inr cpr \<and>
     created_queue_elements w' =
       created_queue_elements w @ [(QUEUE_NAME E, cpr @ '' - '' @ received_time email)] \<and>
     status_updates (length (created_queue_elements w)) w' =
       status_updates (length (created_queue_elements w)) w @ [(DONE, None)] \<and>
     queue_status w' (length (created_queue_elements w)) = DONE \<and>
     (\<forall>i. i \<noteq> length (created_queue_elements w) \<longrightarrow> status_updates i w' = status_updates i w) \<and>
     created_cases w' = created_cases w @ [c] \<and>
     uploaded_documents w' = uploaded_documents w @ [(mime, ''Email kvittering.eml'', u)] \<and>
     attached_documents w' = attached_documents w @ [(case_uuid c, the_document email u)] \<and>
     moved_emails w' = moved_emails w @ [(email, archive_folder)]"
proof -
  let ?q = "length (created_queue_elements w)"
  from handle_email_trace [OF assms] obtain cpr date w2 where
    cpr: "get_cpr_from_email email = Inr cpr"
    and tb: "try_block E email cpr date
        (w @ [Create_queue_element (QUEUE_NAME E) (cpr @ '' - '' @ received_time email)]) = (Inr (), w2)"
    and w': "w' = w2 @ [Set_queue_element_status ?q DONE None]"
    by auto
  from try_block_trace [OF tb] obtain c mime u where
    w2: "w2 = (w @ [Create_queue_element (QUEUE_NAME E) (cpr @ '' - '' @ received_time email)]) @
       [Add_case c, Upload_document mime ''Email kvittering.eml'' u,
        Attach_document_to_case (case_uuid c) (the_document email u),
        Move_email email archive_folder]"
    by auto
  have "created_queue_elements w' =
       created_queue_elements w @ [(QUEUE_NAME E, cpr @ '' - '' @ received_time email)]"
    by (simp add: w' w2)
  moreover have "status_updates ?q w' = status_updates ?q w @ [(DONE, None)]"
    by (simp add: w' w2)
  moreover have "queue_status w' ?q = DONE"
    unfolding w' by (rule queue_status_append_update)
  moreover have "\<forall>i. i \<noteq> ?q \<longrightarrow> status_updates i w' = status_updates i w"
    by (simp add: w' w2)
  moreover have "created_cases w' = created_cases w @ [c]"
    by (simp add: w' w2)
  moreover have "uploaded_documents w' = uploaded_documents w @ [(mime, ''Email kvittering.eml'', u)]"
    by (simp add: w' w2)
  moreover have "attached_documents w' = attached_documents w @ [(case_uuid c, the_document email u)]"
    by (simp add: w' w2)
  moreover have "moved_emails w' = moved_emails w @ [(email, archive_folder)]"
    by (simp add: w' w2)
  ultimately show ?thesis using cpr by blast
qed

text \<open>The first receipt in the calm world.\<close>

theorem handle_email_done_witness:
  "handle_email calm mail1 [] = (Inr (), snd (handle_email calm mail1 [])) \<and>
   (\<exists>c mime u.
      created_queue_elements (snd (handle_email calm mail1 []))
        = [(''Enlig forsoerger'', ''0101901234 - 2024-05-01T10:00:00'')] \<and>
      status_updates 0 (snd (handle_email calm mail1 [])) = [(DONE, None)] \<and>
      queue_status (snd (handle_email calm mail1 [])) 0 = DONE \<and>
      created_cases (snd (handle_email calm mail1 [])) = [c] \<and>
      uploaded_documents (snd (handle_email calm mail1 [])) = [(mime, ''Email kvittering.eml'', u)] \<and>
      attached_documents (snd (handle_email calm mail1 [])) = [(case_uuid c, the_document mail1 u)] \<and>
      moved_emails (snd (handle_email calm mail1 [])) = [(mail1, archive_folder)])"
proof -
  have "fst (handle_email calm mail1 []) = Inr ()"
    by (simp add: run_defs calm_def mail1_def)
  then have h: "handle_email calm mail1 [] = (Inr (), snd (handle_email calm mail1 []))"
    by (rule pair_fst_snd)
  have q: "QUEUE_NAME calm = ''Enlig forsoerger''" by (simp add: calm_def)
  have t: "received_time mail1 = ''2024-05-01T10:00:00''" by (simp add: mail1_def)
  from handle_email_done [OF h] cpr_mail1 q t
  have "\<exists>c mime u.
      created_queue_elements (snd (handle_email calm mail1 []))
        = [(''Enlig forsoerger'', ''0101901234 - 2024-05-01T10:00:00'')] \<and>
      status_updates 0 (snd (handle_email calm mail1 [])) = [(DONE, None)] \<and>
      queue_status (snd (handle_email calm mail1 [])) 0 = DONE \<and>
      created_cases (snd (handle_email calm mail1 [])) = [c] \<and>
      uploaded_documents (snd (handle_email calm mail1 [])) = [(mime, ''Email kvittering.eml'', u)] \<and>
      attached_documents (snd (handle_email calm mail1 [])) = [(case_uuid c, the_document mail1 u)] \<and>
      moved_emails (snd (handle_email calm mail1 [])) = [(mail1, archive_folder)]"
    by auto
  with h show ?thesis by (rule conjI)
qed

text \<open>
  C2, as stated, has the failed queue element carry a non-empty message. The message is
  the text of the exception, and an exception may have no text.
\<close>

theorem handle_email_empty_message_counterexample:
  "get_cpr_from_email mail1 = Inr ''0101901234'' \<and>
   handle_email silent mail1 [] =
     (Inl (Raised []),
      [Create_queue_element ''Enlig forsoerger'' ''0101901234 - 2024-05-01T10:00:00'',
       Set_queue_element_status 0 FAILED (Some [])])"
  by (simp add: run_defs silent_def calm_def mail1_def)

text \<open>
  C2, amended. When the handling of an email raises an exception in the case creation,
  the document attachment or the move, that is, in the \<open>try\<close>, the queue element of the
  email is set to \<open>FAILED\<close> with the text of the exception as its message, as the last
  thing done, and the email is not moved.
\<close>

theorem handle_email_failed:
  assumes "get_cpr_from_email email = Inr cpr"
    and "fromisoformat E (received_time email) = Inr date"
    and "handle_email E email w = (Inl exc, w')"
  shows "(\<exists>w2. try_block E email cpr date
             (w @ [Create_queue_element (QUEUE_NAME E) (cpr @ '' - '' @ received_time email)])
           = (Inl exc, w2)) \<and>
     created_queue_elements w' =
       created_queue_elements w @ [(QUEUE_NAME E, cpr @ '' - '' @ received_time email)] \<and>
     status_updates (length (created_queue_elements w)) w' =
       status_updates (length (created_queue_elements w)) w @ [(FAILED, Some (str_exn exc))] \<and>
     queue_status w' (length (created_queue_elements w)) = FAILED \<and>
     last w' = Set_queue_element_status (length (created_queue_elements w)) FAILED (Some (str_exn exc)) \<and>
     moved_emails w' = moved_emails w"
proof -
  let ?q = "length (created_queue_elements w)"
  let ?w1 = "w @ [Create_queue_element (QUEUE_NAME E) (cpr @ '' - '' @ received_time email)]"
  from handle_email_trace [OF assms(3)] assms(1,2) obtain w2 where
    tb: "try_block E email cpr date ?w1 = (Inl exc, w2)"
    and w': "w' = w2 @ [Set_queue_element_status ?q FAILED (Some (str_exn exc))]"
    by auto
  from try_block_views [OF tb] obtain mid where
    w2: "w2 = ?w1 @ mid" and q: "created_queue_elements mid = []"
    and s: "\<forall>i. status_updates i mid = []" and m: "moved_emails mid = []"
    by auto
  have "created_queue_elements w' =
       created_queue_elements w @ [(QUEUE_NAME E, cpr @ '' - '' @ received_time email)]"
    by (simp add: w' w2 q)
  moreover have "status_updates ?q w' = status_updates ?q w @ [(FAILED, Some (str_exn exc))]"
    by (simp add: w' w2 s)
  moreover have "queue_status w' ?q = FAILED"
    unfolding w' by (rule queue_status_append_update)
  moreover have "last w' = Set_queue_element_status ?q FAILED (Some (str_exn exc))"
    by (simp add: w')
  moreover have "moved_emails w' = moved_emails w"
    by (simp add: w' w2 m)
  ultimately show ?thesis using tb by blast
qed

text \<open>The move raises: the case and the document stay, the email is not moved.\<close>

theorem handle_email_failed_witness:
  "get_cpr_from_email mail1 = Inr ''0101901234'' \<and>
   fromisoformat refusing_move (received_time mail1)
     = Inr \<lparr>year = 2024, month = 5, day = 1, hour = 10, minute = 0, second = 0\<rparr> \<and>
   handle_email refusing_move mail1 []
     = (Inl (Raised ''folder not found''), snd (handle_email refusing_move mail1 [])) \<and>
   status_updates 0 (snd (handle_email refusing_move mail1 []))
     = [(FAILED, Some ''folder not found'')] \<and>
   queue_status (snd (handle_email refusing_move mail1 [])) 0 = FAILED \<and>
   last (snd (handle_email refusing_move mail1 []))
     = Set_queue_element_status 0 FAILED (Some ''folder not found'') \<and>
   moved_emails (snd (handle_email refusing_move mail1 [])) = []"
proof -
  have d: "fromisoformat refusing_move (received_time mail1)
     = Inr \<lparr>year = 2024, month = 5, day = 1, hour = 10, minute = 0, second = 0\<rparr>"
    by (simp add: refusing_move_def calm_def mail1_def)
  have "fst (handle_email refusing_move mail1 []) = Inl (Raised ''folder not found'')"
    by (simp add: run_defs refusing_move_def calm_def mail1_def)
  then have h: "handle_email refusing_move mail1 []
     = (Inl (Raised ''folder not found''), snd (handle_email refusing_move mail1 []))"
    by (rule pair_fst_snd)
  from handle_email_failed [OF cpr_mail1 d h]
  have "status_updates 0 (snd (handle_email refusing_move mail1 []))
     = [(FAILED, Some ''folder not found'')] \<and>
   queue_status (snd (handle_email refusing_move mail1 [])) 0 = FAILED \<and>
   last (snd (handle_email refusing_move mail1 []))
     = Set_queue_element_status 0 FAILED (Some ''folder not found'') \<and>
   moved_emails (snd (handle_email refusing_move mail1 [])) = []"
    by simp
  with cpr_mail1 d h show ?thesis by (intro conjI) simp_all
qed

text \<open>
  C8, as stated, has every email get a queue element. An email without the pattern, or
  with a time of receipt that is no ISO date, raises before a queue element is created.
\<close>

theorem handle_email_no_queue_element_counterexample:
  "handle_email calm mail_without_cpr [] = (Inl IndexError, []) \<and>
   handle_email calm mail_undated [] = (Inl (Raised ''Invalid isoformat string''), [])"
  by (simp add: run_defs calm_def mail_without_cpr_def mail_undated_def)

text \<open>
  C8, amended. For every email whose identifier is found and whose time of receipt
  parses, \<open>handle_email\<close> first creates the queue element, with the reference made of the
  identifier, \<open>" - "\<close> and the time of receipt as received, and last sets its status:
  to \<open>DONE\<close> without a message when it returns, to \<open>FAILED\<close> with the text of the
  exception when it raises. Between the two it touches no queue element, so the status is
  set exactly once.
\<close>

theorem handle_email_queue_element:
  assumes "get_cpr_from_email email = Inr cpr"
    and "fromisoformat E (received_time email) = Inr date"
    and "handle_email E email w = (r, w')"
  shows "\<exists>mid st msg.
     w' = w @ [Create_queue_element (QUEUE_NAME E) (cpr @ '' - '' @ received_time email)] @ mid @
            [Set_queue_element_status (length (created_queue_elements w)) st msg] \<and>
     created_queue_elements mid = [] \<and> (\<forall>i. status_updates i mid = []) \<and>
     (st = DONE \<or> st = FAILED) \<and>
     ((r = Inr () \<and> st = DONE \<and> msg = None) \<or>
      (\<exists>exc. r = Inl exc \<and> st = FAILED \<and> msg = Some (str_exn exc)))"
proof -
  let ?q = "length (created_queue_elements w)"
  let ?w1 = "w @ [Create_queue_element (QUEUE_NAME E) (cpr @ '' - '' @ received_time email)]"
  let ?st = "case r of Inl _ \<Rightarrow> FAILED | Inr _ \<Rightarrow> DONE"
  let ?msg = "case r of Inl exc \<Rightarrow> Some (str_exn exc) | Inr _ \<Rightarrow> None"
  from handle_email_trace [OF assms(3)] assms(1,2) obtain w2 where
    tb: "try_block E email cpr date ?w1 = (r, w2)"
    and w': "w' = w2 @ [Set_queue_element_status ?q ?st ?msg]"
    by auto
  from try_block_views [OF tb] obtain mid where
    w2: "w2 = ?w1 @ mid" and q: "created_queue_elements mid = []"
    and s: "\<forall>i. status_updates i mid = []"
    by auto
  have "w' = w @ [Create_queue_element (QUEUE_NAME E) (cpr @ '' - '' @ received_time email)] @ mid @
            [Set_queue_element_status ?q ?st ?msg]"
    by (simp add: w' w2)
  moreover have "?st = DONE \<or> ?st = FAILED" by (cases r) simp_all
  moreover have "(r = Inr () \<and> ?st = DONE \<and> ?msg = None) \<or>
      (\<exists>exc. r = Inl exc \<and> ?st = FAILED \<and> ?msg = Some (str_exn exc))"
    by (cases r) simp_all
  ultimately show ?thesis using q s by blast
qed

text \<open>The second receipt in the calm world.\<close>

theorem handle_email_queue_element_witness:
  "get_cpr_from_email mail2 = Inr ''0202902345'' \<and>
   fromisoformat calm (received_time mail2)
     = Inr \<lparr>year = 2024, month = 5, day = 2, hour = 11, minute = 30, second = 0\<rparr> \<and>
   handle_email calm mail2 [] = (Inr (), snd (handle_email calm mail2 [])) \<and>
   (\<exists>mid.
      snd (handle_email calm mail2 []) =
        [Create_queue_element ''Enlig forsoerger'' ''0202902345 - 2024-05-02T11:30:00''] @ mid @
        [Set_queue_element_status 0 DONE None] \<and>
      created_queue_elements mid = [] \<and> (\<forall>i. status_updates i mid = []))"
proof -
  have d: "fromisoformat calm (received_time mail2)
     = Inr \<lparr>year = 2024, month = 5, day = 2, hour = 11, minute = 30, second = 0\<rparr>"
    by (simp add: calm_def mail2_def)
  have "fst (handle_email calm mail2 []) = Inr ()"
    by (simp add: run_defs calm_def mail2_def)
  then have h: "handle_email calm mail2 [] = (Inr (), snd (handle_email calm mail2 []))"
    by (rule pair_fst_snd)
  have q: "QUEUE_NAME calm = ''Enlig forsoerger''" by (simp add: calm_def)
  have t: "received_time mail2 = ''2024-05-02T11:30:00''" by (simp add: mail2_def)
  from handle_email_queue_element [OF cpr_mail2 d h] q t
  have "\<exists>mid.
      snd (handle_email calm mail2 []) =
        [Create_queue_element ''Enlig forsoerger'' ''0202902345 - 2024-05-02T11:30:00''] @ mid @
        [Set_queue_element_status 0 DONE None] \<and>
      created_queue_elements mid = [] \<and> (\<forall>i. status_updates i mid = [])"
    by auto
  with cpr_mail2 d h show ?thesis by (intro conjI)
qed

text \<open>
  C9. For every email, in every world: the steps of \<open>handle_email\<close> are an initial part
  of the sequence case creation, upload, attachment of the uploaded document to the created
  case, move of the email. So no step is taken unless the one before it has succeeded, the
  move never comes before the attachment, and the email is moved exactly when the handler
  returns without an exception.
\<close>

theorem handle_email_steps_in_order:
  "\<exists>c mime u.
     take (length w) (snd (handle_email E email w)) = w \<and>
     prefix (steps (drop (length w) (snd (handle_email E email w))))
       [Add_case c, Upload_document mime ''Email kvittering.eml'' u,
        Attach_document_to_case (case_uuid c) (the_document email u),
        Move_email email archive_folder] \<and>
     ((fst (handle_email E email w) = Inr ()) =
        (Move_email email archive_folder \<in> set (drop (length w) (snd (handle_email E email w)))))"
proof -
  obtain r w' where h: "handle_email E email w = (r, w')" by (cases "handle_email E email w")
  let ?full = "\<lambda>c mime u. [Add_case c, Upload_document mime ''Email kvittering.eml'' u,
        Attach_document_to_case (case_uuid c) (the_document email u),
        Move_email email archive_folder]"
  have "\<exists>c mime u. take (length w) w' = w \<and> prefix (steps (drop (length w) w')) (?full c mime u) \<and>
      ((r = Inr ()) = (Move_email email archive_folder \<in> set (drop (length w) w')))"
  proof -
    from handle_email_trace [OF h] consider
      (early) exc where "r = Inl exc" "w' = w"
    | (tried) cpr date w2 st msg where
        "try_block E email cpr date
            (w @ [Create_queue_element (QUEUE_NAME E) (cpr @ '' - '' @ received_time email)]) = (r, w2)"
        "w' = w2 @ [Set_queue_element_status (length (created_queue_elements w)) st msg]"
      by blast
    then show ?thesis
    proof cases
      case early
      then show ?thesis by simp
    next
      case tried
      let ?w1 = "w @ [Create_queue_element (QUEUE_NAME E) (cpr @ '' - '' @ received_time email)]"
      from try_block_trace [OF tried(1)] obtain c mime u where
        "(\<exists>exc. r = Inl exc \<and>
            (w2 = ?w1 \<or> w2 = ?w1 @ [Add_case c] \<or>
             w2 = ?w1 @ [Add_case c, Upload_document mime ''Email kvittering.eml'' u])) \<or>
         (r = Inr () \<and> w2 = ?w1 @ ?full c mime u) \<or>
         (\<exists>exc. r = Inl exc \<and> w2 = ?w1 @ [Add_case c, Upload_document mime ''Email kvittering.eml'' u,
             Attach_document_to_case (case_uuid c) (the_document email u)])"
        by blast
      then consider
        (a) exc where "r = Inl exc" "w2 = ?w1"
      | (b) exc where "r = Inl exc" "w2 = ?w1 @ [Add_case c]"
      | (c) exc where "r = Inl exc" "w2 = ?w1 @ [Add_case c, Upload_document mime ''Email kvittering.eml'' u]"
      | (d) exc where "r = Inl exc" "w2 = ?w1 @ [Add_case c, Upload_document mime ''Email kvittering.eml'' u,
             Attach_document_to_case (case_uuid c) (the_document email u)]"
      | (e) "r = Inr ()" "w2 = ?w1 @ ?full c mime u"
        by blast
      then have "take (length w) w' = w \<and> prefix (steps (drop (length w) w')) (?full c mime u) \<and>
        ((r = Inr ()) = (Move_email email archive_folder \<in> set (drop (length w) w')))"
      proof cases
        case a
        with tried(2) show ?thesis by simp
      next
        case b
        with tried(2) show ?thesis by simp
      next
        case c
        with tried(2) show ?thesis by simp
      next
        case d
        with tried(2) show ?thesis by simp
      next
        case e
        with tried(2) show ?thesis by simp
      qed
      then show ?thesis by blast
    qed
  qed
  with h show ?thesis by simp
qed

text \<open>The attachment is refused: the case is created, the document uploaded, nothing moved.\<close>

theorem handle_email_steps_in_order_witness:
  "fst (handle_email refusing_attach mail2 []) = Inl (Raised ''attach refused'') \<and>
   length (steps (snd (handle_email refusing_attach mail2 []))) = 2 \<and>
   (\<exists>c mime u.
      prefix (steps (snd (handle_email refusing_attach mail2 [])))
        [Add_case c, Upload_document mime ''Email kvittering.eml'' u,
         Attach_document_to_case (case_uuid c) (the_document mail2 u),
         Move_email mail2 archive_folder]) \<and>
   Move_email mail2 archive_folder \<notin> set (snd (handle_email refusing_attach mail2 []))"
proof -
  have r: "fst (handle_email refusing_attach mail2 []) = Inl (Raised ''attach refused'')"
    by (simp add: run_defs refusing_attach_def calm_def mail2_def)
  have l: "length (steps (snd (handle_email refusing_attach mail2 []))) = 2"
    by (simp add: run_defs refusing_attach_def calm_def mail2_def)
  from handle_email_steps_in_order [of "[]" refusing_attach mail2] r
  have "(\<exists>c mime u.
      prefix (steps (snd (handle_email refusing_attach mail2 [])))
        [Add_case c, Upload_document mime ''Email kvittering.eml'' u,
         Attach_document_to_case (case_uuid c) (the_document mail2 u),
         Move_email mail2 archive_folder]) \<and>
   Move_email mail2 archive_folder \<notin> set (snd (handle_email refusing_attach mail2 []))"
    by auto
  with r l show ?thesis by (intro conjI) simp_all
qed

subsection \<open>The batch\<close>

text \<open>
  C3, as stated, has every exception of the handling recorded on the queue element of the
  email. An email without the pattern raises before its queue element exists: the batch
  stops and nothing is recorded.
\<close>

theorem handle_emails_unrecorded_counterexample:
  "handle_emails calm [mail_without_cpr, mail1] [] = (Inl IndexError, []) \<and>
   created_queue_elements (snd (handle_emails calm [mail_without_cpr, mail1] [])) = []"
  by (simp add: run_defs calm_def mail_without_cpr_def mail1_def)

text \<open>
  C3, amended. When the emails before a given one are handled without an exception and
  the handling of that one raises, the loop raises the same exception and leaves the world
  as that handler left it: no later email of the batch is handled. When the identifier is
  found and the time of receipt parses, the exception is one of the \<open>try\<close>, and it is
  recorded before, as status \<open>FAILED\<close> with its text, on the queue element of the email,
  which the handler has created, and the email is not moved. When the identifier
  extraction or the date parsing raises, the world is left as it was: no queue element is
  created and the exception is recorded nowhere.
\<close>

theorem handle_emails_aborts:
  assumes "handle_emails E before w = (Inr (), w1)"
    and "handle_email E email w1 = (Inl exc, w2)"
  shows "handle_emails E (before @ email # later) w = (Inl exc, w2) \<and>
     ((w2 = w1 \<and>
        (get_cpr_from_email email = Inl exc \<or>
         (\<exists>cpr. get_cpr_from_email email = Inr cpr \<and>
                fromisoformat E (received_time email) = Inl exc))) \<or>
      (\<exists>cpr date mid.
         get_cpr_from_email email = Inr cpr \<and>
         fromisoformat E (received_time email) = Inr date \<and>
         try_block E email cpr date
           (w1 @ [Create_queue_element (QUEUE_NAME E) (cpr @ '' - '' @ received_time email)])
           = (Inl exc,
              w1 @ [Create_queue_element (QUEUE_NAME E) (cpr @ '' - '' @ received_time email)] @ mid) \<and>
         w2 = w1 @ [Create_queue_element (QUEUE_NAME E) (cpr @ '' - '' @ received_time email)] @ mid @
                [Set_queue_element_status (length (created_queue_elements w1)) FAILED
                   (Some (str_exn exc))] \<and>
         created_queue_elements mid = [] \<and> (\<forall>i. status_updates i mid = []) \<and>
         moved_emails mid = []))"
proof
  from handle_emails_append [OF assms(1), of "email # later"] assms(2)
  show "handle_emails E (before @ email # later) w = (Inl exc, w2)" by simp
next
  from handle_email_trace [OF assms(2)] consider
    (early) "w2 = w1"
      "get_cpr_from_email email = Inl exc \<or>
         (\<exists>cpr. get_cpr_from_email email = Inr cpr \<and>
                fromisoformat E (received_time email) = Inl exc)"
  | (tried) cpr date w3 where "get_cpr_from_email email = Inr cpr"
      "fromisoformat E (received_time email) = Inr date"
      "try_block E email cpr date
         (w1 @ [Create_queue_element (QUEUE_NAME E) (cpr @ '' - '' @ received_time email)]) = (Inl exc, w3)"
      "w2 = w3 @ [Set_queue_element_status (length (created_queue_elements w1)) FAILED
                   (Some (str_exn exc))]"
    by auto
  then show "(w2 = w1 \<and>
        (get_cpr_from_email email = Inl exc \<or>
         (\<exists>cpr. get_cpr_from_email email = Inr cpr \<and>
                fromisoformat E (received_time email) = Inl exc))) \<or>
      (\<exists>cpr date mid.
         get_cpr_from_email email = Inr cpr \<and>
         fromisoformat E (received_time email) = Inr date \<and>
         try_block E email cpr date
           (w1 @ [Create_queue_element (QUEUE_NAME E) (cpr @ '' - '' @ received_time email)])
           = (Inl exc,
              w1 @ [Create_queue_element (QUEUE_NAME E) (cpr @ '' - '' @ received_time email)] @ mid) \<and>
         w2 = w1 @ [Create_queue_element (QUEUE_NAME E) (cpr @ '' - '' @ received_time email)] @ mid @
                [Set_queue_element_status (length (created_queue_elements w1)) FAILED
                   (Some (str_exn exc))] \<and>
         created_queue_elements mid = [] \<and> (\<forall>i. status_updates i mid = []) \<and>
         moved_emails mid = [])"
  proof cases
    case early
    then show ?thesis by blast
  next
    case tried
    from try_block_views [OF tried(3)] obtain mid where
      w3: "w3 = (w1 @ [Create_queue_element (QUEUE_NAME E) (cpr @ '' - '' @ received_time email)]) @ mid"
      and m: "created_queue_elements mid = []" "\<forall>i. status_updates i mid = []" "moved_emails mid = []"
      by auto
    from tried(3) w3 have "try_block E email cpr date
           (w1 @ [Create_queue_element (QUEUE_NAME E) (cpr @ '' - '' @ received_time email)])
           = (Inl exc,
              w1 @ [Create_queue_element (QUEUE_NAME E) (cpr @ '' - '' @ received_time email)] @ mid)"
      by simp
    moreover from tried(4) w3 have
      "w2 = w1 @ [Create_queue_element (QUEUE_NAME E) (cpr @ '' - '' @ received_time email)] @ mid @
                [Set_queue_element_status (length (created_queue_elements w1)) FAILED
                   (Some (str_exn exc))]"
      by simp
    ultimately show ?thesis using tried(1,2) m by blast
  qed
qed

text \<open>
  Three receipts, the document of the second is refused: the queue elements are
  \<open>DONE\<close> and \<open>FAILED\<close>, and the third receipt has none.
\<close>

theorem handle_emails_aborts_witness:
  "handle_emails refusing_attach [mail1] [] = (Inr (), snd (handle_emails refusing_attach [mail1] [])) \<and>
   handle_email refusing_attach mail2 (snd (handle_emails refusing_attach [mail1] []))
     = (Inl (Raised ''attach refused''),
        snd (handle_email refusing_attach mail2 (snd (handle_emails refusing_attach [mail1] [])))) \<and>
   handle_emails refusing_attach ([mail1] @ mail2 # [mail3]) []
     = (Inl (Raised ''attach refused''),
        snd (handle_email refusing_attach mail2 (snd (handle_emails refusing_attach [mail1] [])))) \<and>
   queue_statuses (snd (handle_emails refusing_attach [mail1, mail2, mail3] [])) = [DONE, FAILED] \<and>
   map snd (created_queue_elements (snd (handle_emails refusing_attach [mail1, mail2, mail3] [])))
     = [''0101901234 - 2024-05-01T10:00:00'', ''0202902345 - 2024-05-02T11:30:00''] \<and>
   status_updates 1 (snd (handle_emails refusing_attach [mail1, mail2, mail3] []))
     = [(FAILED, Some ''attach refused'')] \<and>
   moved_emails (snd (handle_emails refusing_attach [mail1, mail2, mail3] []))
     = [(mail1, archive_folder)] \<and>
   fst (process refusing_attach []) = Inl (Raised ''attach refused'') \<and>
   queue_statuses (snd (process refusing_attach [])) = [DONE, FAILED]"
proof -
  let ?w1 = "snd (handle_emails refusing_attach [mail1] [])"
  let ?w2 = "snd (handle_email refusing_attach mail2 ?w1)"
  from run_first have a: "handle_emails refusing_attach [mail1] [] = (Inr (), ?w1)"
    by (rule pair_fst_snd)
  from run_second have b: "handle_email refusing_attach mail2 ?w1 = (Inl (Raised ''attach refused''), ?w2)"
    by (rule pair_fst_snd)
  from handle_emails_aborts [OF a b, of "[mail3]"]
  have c: "handle_emails refusing_attach ([mail1] @ mail2 # [mail3]) []
     = (Inl (Raised ''attach refused''), ?w2)"
    by (rule conjunct1)
  then have w: "snd (handle_emails refusing_attach [mail1, mail2, mail3] []) = ?w2"
    by simp
  have q: "queue_statuses ?w2 = [DONE, FAILED]"
    by (simp add: run_defs refusing_attach_def calm_def mail1_def mail2_def queue_statuses_def queue_status_def)
  have r: "map snd (created_queue_elements ?w2)
     = [''0101901234 - 2024-05-01T10:00:00'', ''0202902345 - 2024-05-02T11:30:00'']"
    by (simp add: run_defs refusing_attach_def calm_def mail1_def mail2_def)
  have s: "status_updates 1 ?w2 = [(FAILED, Some ''attach refused'')]"
    by (simp add: run_defs refusing_attach_def calm_def mail1_def mail2_def)
  have m: "moved_emails ?w2 = [(mail1, archive_folder)]"
    by (simp add: run_defs refusing_attach_def calm_def mail1_def mail2_def)
  have p: "fst (process refusing_attach []) = Inl (Raised ''attach refused'')"
    by (simp add: process_def get_emails_def run_defs refusing_attach_def calm_def mail1_def mail2_def mail3_def)
  have ps: "queue_statuses (snd (process refusing_attach [])) = [DONE, FAILED]"
    by (simp add: process_def get_emails_def run_defs refusing_attach_def calm_def mail1_def mail2_def mail3_def queue_statuses_def queue_status_def)
  from a b c q r s m p ps show ?thesis
    unfolding w by (intro conjI)
qed

end
